theory Spec2Isabelle
  imports Main
begin

section \<open>JavaScript values\<close>

text \<open>
  The compiler is TypeScript whose filter values, option objects and emitted tokens are
  typed \<open>any\<close>: strings, numbers, booleans, \<open>null\<close>, \<open>undefined\<close>, arrays and plain
  objects. \<open>jsval\<close> is that universe. An object is the list of its own enumerable
  entries in enumeration order (what \<open>Object.entries\<close> returns). Numbers are integers:
  the query literals reach the compiler as text (\<open>IntValue\<close> and \<open>FloatValue\<close> nodes carry
  strings), so only a variable can hold a number, and a non-integral one is outside
  this model.
\<close>

datatype jsval =
    JUndefined
  | JNull
  | JBool bool
  | JNum int
  | JStr string
  | JArr "jsval list"
  | JObj "(string \<times> jsval) list"

datatype error =
    TypeError
  | ApolloError string
  | RangeError
  | OutOfFuel

definition ebind :: "error + 'a \<Rightarrow> ('a \<Rightarrow> error + 'b) \<Rightarrow> error + 'b" where
  "ebind m f = (case m of Inl e \<Rightarrow> Inl e | Inr x \<Rightarrow> f x)"

fun emap :: "('a \<Rightarrow> error + 'b) \<Rightarrow> 'a list \<Rightarrow> error + 'b list" where
  "emap f [] = Inr []"
| "emap f (x # xs) = ebind (f x) (\<lambda>y. ebind (emap f xs) (\<lambda>ys. Inr (y # ys)))"

definition eflatMap :: "('a \<Rightarrow> error + 'b list) \<Rightarrow> 'a list \<Rightarrow> error + 'b list" where
  "eflatMap f xs = ebind (emap f xs) (\<lambda>yss. Inr (concat yss))"

text \<open>JavaScript truthiness (\<open>!!v\<close>).\<close>

fun truthy :: "jsval \<Rightarrow> bool" where
  "truthy JUndefined = False"
| "truthy JNull = False"
| "truthy (JBool b) = b"
| "truthy (JNum n) = (n \<noteq> 0)"
| "truthy (JStr s) = (s \<noteq> [])"
| "truthy (JArr xs) = True"
| "truthy (JObj kvs) = True"

fun isArray :: "jsval \<Rightarrow> bool" where
  "isArray (JArr xs) = True"
| "isArray v = False"

text \<open>
  Modelled from the spec: \<open>shared/is-empty-value\<close> is imported by the compiler but is not
  among the sources. The spec says of its use that the check "is for emptiness, not
  falsiness", so that an offset of zero is kept: a value is empty when it is \<open>undefined\<close>
  or \<open>null\<close>.
\<close>

fun isEmptyValue :: "jsval \<Rightarrow> bool" where
  "isEmptyValue JUndefined = True"
| "isEmptyValue JNull = True"
| "isEmptyValue v = False"

definition digit_char :: "nat \<Rightarrow> char" where
  "digit_char n = ''0123456789'' ! n"

fun show_nat :: "nat \<Rightarrow> string" where
  "show_nat n = (if n < 10 then [digit_char n] else show_nat (n div 10) @ [digit_char (n mod 10)])"

declare show_nat.simps [simp del]

definition show_int :: "int \<Rightarrow> string" where
  "show_int i = (if i < 0 then CHR ''-'' # show_nat (nat (- i)) else show_nat (nat i))"

fun joinStrings :: "string \<Rightarrow> string list \<Rightarrow> string" where
  "joinStrings sep [] = []"
| "joinStrings sep [x] = x"
| "joinStrings sep (x # y # ys) = x @ sep @ joinStrings sep (y # ys)"

text \<open>
  \<open>String(v)\<close>, which is also what a template literal and \<open>toString()\<close> produce. Inside
  an array \<open>null\<close> and \<open>undefined\<close> are rendered as the empty string, as \<open>join\<close> does.
\<close>

fun toString :: "jsval \<Rightarrow> string" where
  "toString JUndefined = ''undefined''"
| "toString JNull = ''null''"
| "toString (JBool b) = (if b then ''true'' else ''false'')"
| "toString (JNum n) = show_int n"
| "toString (JStr s) = s"
| "toString (JArr xs) =
     joinStrings '','' (map (\<lambda>x. if isEmptyValue x then [] else toString x) xs)"
| "toString (JObj kvs) = ''[object Object]''"

text \<open>\<open>Array.prototype.join\<close>.\<close>

definition join :: "string \<Rightarrow> jsval list \<Rightarrow> string" where
  "join sep xs = joinStrings sep (map (\<lambda>x. if isEmptyValue x then [] else toString x) xs)"

text \<open>\<open>Array.prototype.flat()\<close>: one level.\<close>

fun flat :: "jsval list \<Rightarrow> jsval list" where
  "flat [] = []"
| "flat (JArr ys # xs) = ys @ flat xs"
| "flat (x # xs) = x # flat xs"

text \<open>
  \<open>insertBetweenArrayItems\<close> of utils.ts: drop the empty items and the empty arrays, then
  put the insertion before every kept item but the first. It is used on lists of
  values and on lists of token groups; \<open>insertBetween\<close> is the second step.
\<close>

fun insertBetween :: "'a \<Rightarrow> 'a list \<Rightarrow> 'a list" where
  "insertBetween ins [] = []"
| "insertBetween ins [x] = [x]"
| "insertBetween ins (x # y # ys) = x # ins # insertBetween ins (y # ys)"

definition insertBetweenArrayItems :: "jsval list \<Rightarrow> jsval \<Rightarrow> jsval list" where
  "insertBetweenArrayItems items insertion =
     insertBetween insertion
       (filter (\<lambda>item. \<not> isEmptyValue item \<and> (\<not> isArray item \<or> item \<noteq> JArr [])) items)"

definition insertBetweenGroups :: "jsval list list \<Rightarrow> jsval list \<Rightarrow> jsval list list" where
  "insertBetweenGroups items insertion = insertBetween insertion (filter (\<lambda>item. item \<noteq> []) items)"

text \<open>
  \<open>toCamelCase\<close> of utils.ts lowers the first character; on the empty string
  \<open>value[0]\<close> is \<open>undefined\<close> and the call throws. Characters are bytes: the letters
  A to Z are lowered, every other byte is kept.
\<close>

definition lower_char :: "char \<Rightarrow> char" where
  "lower_char c =
     (case map_of (zip ''ABCDEFGHIJKLMNOPQRSTUVWXYZ'' ''abcdefghijklmnopqrstuvwxyz'') c of
        Some d \<Rightarrow> d
      | None \<Rightarrow> c)"

fun toCamelCase :: "string \<Rightarrow> error + string" where
  "toCamelCase [] = Inl TypeError"
| "toCamelCase (c # cs) = Inr (lower_char c # cs)"

text \<open>The regular expressions \<open>/Connection$/\<close> and \<open>/Relationship$/\<close> of the models file.\<close>

definition endsWith :: "string \<Rightarrow> string \<Rightarrow> bool" where
  "endsWith suffix s = (length suffix \<le> length s \<and> drop (length s - length suffix) s = suffix)"

definition ConnectionSuffixRegex_test :: "string \<Rightarrow> bool" where
  "ConnectionSuffixRegex_test s = endsWith ''Connection'' s"

definition RelationshipSuffixRegex_test :: "string \<Rightarrow> bool" where
  "RelationshipSuffixRegex_test s = endsWith ''Relationship'' s"

definition ConnectionSuffixRegex_strip :: "string \<Rightarrow> string" where
  "ConnectionSuffixRegex_strip s =
     (if ConnectionSuffixRegex_test s then take (length s - length ''Connection'') s else s)"

text \<open>\<open>String.prototype.split\<close> on a one-character separator.\<close>

fun splitOn :: "char \<Rightarrow> string \<Rightarrow> string list" where
  "splitOn c [] = [[]]"
| "splitOn c (x # xs) =
     (if x = c then [] # splitOn c xs
      else (case splitOn c xs of [] \<Rightarrow> [[x]] | w # ws \<Rightarrow> (x # w) # ws))"

section \<open>The schema and the query document\<close>

text \<open>
  A GraphQL output type is a named type under list and non-null wrappers. A named type
  is known by its name; the schema binds names to definitions. \<open>getFields\<close> exists on
  object and interface types only, so it throws on any other type, and on a name the
  schema does not bind.
\<close>

datatype gtype = NamedType string | ListType gtype | NonNullType gtype

datatype type_kind = ObjectKind | InterfaceKind | ScalarKind | EnumKind | UnionKind

record type_def =
  tkind :: type_kind
  tfields :: "(string \<times> gtype) list"

datatype value_node =
    ObjectValue "(string \<times> value_node) list"
  | ListValue "value_node list"
  | Variable string
  | StringValue string
  | EnumValue string
  | IntValue string
  | FloatValue string
  | BooleanValue bool
  | NullValue

type_synonym argument_node = "string \<times> value_node"

record directive_node =
  dname :: string
  darguments :: "argument_node list"

datatype field_node =
    FieldNode (fnName: string) (fnAlias: "string option") (fnArguments: "argument_node list")
      (fnSelectionSet: "selection list option")
and selection =
    SelField field_node
  | SelInlineFragment "string option" "selection list"
  | SelFragmentSpread string

text \<open>
  What a compiler instance is constructed with and the module-level tables it reads:
  the schema, the variables, the directive index \<open>typeFieldsToDirectivesMap\<close> (built
  once from the schema's SDL, keyed \<open>Type.field\<close>), which of the two compiler classes it
  is, and the date formatter. \<open>format(new Date(y, m - 1, d), "yyyy-MM-dd")\<close> is the
  date-fns library on the JavaScript calendar; it is taken as a parameter.
\<close>

record env =
  schemaTypes :: "string \<rightharpoonup> type_def"
  variables :: "string \<Rightarrow> jsval"
  typeFieldsToDirectivesMap :: "string \<rightharpoonup> directive_node list"
  tenantBased :: bool
  formatDate :: "jsval \<Rightarrow> int \<Rightarrow> jsval \<Rightarrow> error + string"

fun unwrapType :: "gtype \<Rightarrow> string" where
  "unwrapType (NamedType n) = n"
| "unwrapType (ListType t) = unwrapType t"
| "unwrapType (NonNullType t) = unwrapType t"

fun unwrapNullableType :: "gtype \<Rightarrow> gtype" where
  "unwrapNullableType (NonNullType t) = t"
| "unwrapNullableType t = t"

fun isListType :: "gtype \<Rightarrow> bool" where
  "isListType (ListType t) = True"
| "isListType t = False"

definition kindOf :: "env \<Rightarrow> string \<Rightarrow> type_kind option" where
  "kindOf e n = map_option tkind (schemaTypes e n)"

definition isObjectType :: "env \<Rightarrow> string \<Rightarrow> bool" where
  "isObjectType e n = (kindOf e n = Some ObjectKind)"

definition isScalarType :: "env \<Rightarrow> string \<Rightarrow> bool" where
  "isScalarType e n = (kindOf e n = Some ScalarKind)"

definition isEnumType :: "env \<Rightarrow> string \<Rightarrow> bool" where
  "isEnumType e n = (kindOf e n = Some EnumKind)"

definition getFields :: "env \<Rightarrow> string \<Rightarrow> error + (string \<rightharpoonup> gtype)" where
  "getFields e n =
     (case schemaTypes e n of
        None \<Rightarrow> Inl TypeError
      | Some d \<Rightarrow>
          if tkind d = ObjectKind \<or> tkind d = InterfaceKind then Inr (map_of (tfields d))
          else Inl TypeError)"

text \<open>\<open>type.getFields()[name].type\<close>: throws when the field is absent.\<close>

definition fieldTypeOf :: "env \<Rightarrow> string \<Rightarrow> string \<Rightarrow> error + gtype" where
  "fieldTypeOf e n f =
     ebind (getFields e n) (\<lambda>fs. case fs f of None \<Rightarrow> Inl TypeError | Some t \<Rightarrow> Inr t)"

definition getTargetIfConnectionType :: "env \<Rightarrow> string \<Rightarrow> error + string" where
  "getTargetIfConnectionType e n =
     (if ConnectionSuffixRegex_test n
      then ebind (fieldTypeOf e n ''edges'') (\<lambda>edges.
           ebind (fieldTypeOf e (unwrapType edges) ''node'') (\<lambda>node. Inr (unwrapType node)))
      else Inr n)"

section \<open>Conditions\<close>

text \<open>
  The \<open>Condition\<close> interface. \<open>parentType\<close> is the name of the object type; a group
  inside an OR has none. The three flags are optional booleans read for truth only, so
  an absent flag is \<open>False\<close>. \<open>nested\<close> is read only through \<open>?.length\<close>, \<open>|| []\<close>,
  \<open>?.filter\<close>, \<open>?.some\<close> and \<open>?.every\<close>, which do not tell an absent list from an empty
  one, so an absent list is \<open>[]\<close>.
\<close>

datatype condition =
  Condition (parentType: "string option") (parentPropertyName: "string option")
    (property: "string option") (operator: "string option") (isOr: bool) (isGroup: bool)
    (isRelationship: bool) (cvalue: jsval) (nested: "condition list")

text \<open>A template literal prints an absent string as \<open>undefined\<close>.\<close>

fun optString :: "string option \<Rightarrow> string" where
  "optString None = ''undefined''"
| "optString (Some s) = s"

text \<open>\<open>condition.operator\<close> read for truth: absent and empty are both false.\<close>

fun hasOperator :: "condition \<Rightarrow> bool" where
  "hasOperator c = (case operator c of None \<Rightarrow> False | Some s \<Rightarrow> s \<noteq> [])"

definition typeName :: "string option \<Rightarrow> error + string" where
  "typeName t = (case t of None \<Rightarrow> Inl TypeError | Some n \<Rightarrow> Inr n)"

definition propertyAccessorExpression :: "condition \<Rightarrow> jsval \<Rightarrow> error + string" where
  "propertyAccessorExpression c level =
     ebind (if isRelationship c then Inr (''rel_'' @ optString (parentPropertyName c))
            else ebind (typeName (parentType c)) toCamelCase) (\<lambda>prefix.
       Inr (prefix @ toString level @ ''.'' @ optString (property c)))"

definition createSinglePropertyConditionExpression ::
  "condition \<Rightarrow> jsval \<Rightarrow> error + jsval list" where
  "createSinglePropertyConditionExpression c level =
     ebind (propertyAccessorExpression c level) (\<lambda>acc.
       let x = JStr acc; v = cvalue c;
           op = (if hasOperator c then the (operator c) else ''EQUALS'')
       in if op = ''CONTAINS'' then Inr [x, JStr ''CONTAINS'', v]
          else if op = ''IN'' then Inr [x, JStr ''IN'', v]
          else if op = ''NOT_IN'' then Inr [JStr ''NOT'', JStr ''('', x, JStr ''IN'', v, JStr '')'']
          else if op = ''INCLUDES'' then Inr [v, JStr ''IN'', x]
          else if op = ''MATCHES'' then Inr [x, JStr ''=~'', v]
          else if op = ''ENDS_WITH'' then Inr [x, JStr ''ENDS WITH'', v]
          else if op = ''NOT_ENDS_WITH''
            then Inr [JStr ''NOT'', JStr ''('', x, JStr ''ENDS WITH'', v, JStr '')'']
          else if op = ''NOT_CONTAINS''
            then Inr [JStr ''NOT'', JStr ''('', x, JStr ''CONTAINS'', v, JStr '')'']
          else if op = ''GT'' then Inr [x, JStr ''>'', v]
          else if op = ''GTE'' then Inr [x, JStr ''>='', v]
          else if op = ''LT'' then Inr [x, JStr ''<'', v]
          else if op = ''LTE'' then Inr [x, JStr ''<='', v]
          else if op = ''NOT'' then Inr [x, JStr ''<>'', v]
          else if op = ''EQUALS'' then Inr [x, JStr ''='', v]
          else Inl (ApolloError (''Unknown operator: '' @ optString (operator c))))"

text \<open>The operators the emitter knows.\<close>

definition knownOperators :: "string set" where
  "knownOperators = {''EQUALS'', ''NOT'', ''GT'', ''GTE'', ''LT'', ''LTE'', ''IN'', ''NOT_IN'',
     ''CONTAINS'', ''NOT_CONTAINS'', ''ENDS_WITH'', ''NOT_ENDS_WITH'', ''MATCHES'', ''INCLUDES''}"

section \<open>Basic facts\<close>

lemma ebind_Inr [simp]: "ebind (Inr x) f = f x"
  by (simp add: ebind_def)

lemma ebind_Inl [simp]: "ebind (Inl e) f = Inl e"
  by (simp add: ebind_def)

lemma ebind_cong [fundef_cong]:
  "m = m' \<Longrightarrow> (\<And>x. m' = Inr x \<Longrightarrow> f x = f' x) \<Longrightarrow> ebind m f = ebind m' f'"
  by (cases m') (simp_all add: ebind_def)

lemma emap_cong [fundef_cong]:
  "xs = ys \<Longrightarrow> (\<And>x. x \<in> set ys \<Longrightarrow> f x = g x) \<Longrightarrow> emap f xs = emap g ys"
  by (induction ys arbitrary: xs) auto

lemma eflatMap_cong [fundef_cong]:
  "xs = ys \<Longrightarrow> (\<And>x. x \<in> set ys \<Longrightarrow> f x = g x) \<Longrightarrow> eflatMap f xs = eflatMap g ys"
  unfolding eflatMap_def by (auto cong: emap_cong)

section \<open>The filter analyzer\<close>

text \<open>\<open>node.value\<close> of a value node, for the kinds that have one.\<close>

fun nodeValue :: "value_node \<Rightarrow> jsval" where
  "nodeValue (StringValue s) = JStr s"
| "nodeValue (EnumValue s) = JStr s"
| "nodeValue (IntValue s) = JStr s"
| "nodeValue (FloatValue s) = JStr s"
| "nodeValue (BooleanValue b) = JBool b"
| "nodeValue v = JUndefined"

definition quoted :: "string \<Rightarrow> string" where
  "quoted s = CHR 0x27 # s @ [CHR 0x27]"

text \<open>Property read \<open>obj[key]\<close> on a plain object; any other value has no such property.\<close>

fun getProp :: "jsval \<Rightarrow> string \<Rightarrow> jsval" where
  "getProp (JObj kvs) k = (case map_of kvs k of None \<Rightarrow> JUndefined | Some v \<Rightarrow> v)"
| "getProp v k = JUndefined"

fun isNumber :: "jsval \<Rightarrow> bool" where
  "isNumber (JNum n) = True"
| "isNumber v = False"

text \<open>\<open>typeof v === "object"\<close>: objects, arrays and \<open>null\<close>.\<close>

fun typeofObject :: "jsval \<Rightarrow> bool" where
  "typeofObject (JObj kvs) = True"
| "typeofObject (JArr xs) = True"
| "typeofObject JNull = True"
| "typeofObject v = False"

definition mapConditionValue :: "env \<Rightarrow> jsval \<Rightarrow> error + jsval" where
  "mapConditionValue e v =
     (if \<not> truthy v then Inr v
      else if typeofObject v \<and> truthy (getProp v ''year'') \<and> isNumber (getProp v ''month'')
        then ebind (formatDate e (getProp v ''year'')
                      ((case getProp v ''month'' of JNum m \<Rightarrow> m | _ \<Rightarrow> 0) - 1)
                      (getProp v ''day'')) (\<lambda>s. Inr (JStr s))
      else (case v of
              JArr items \<Rightarrow>
                Inr (JArr ([JStr ''[''] @
                  insertBetweenArrayItems
                    (map (\<lambda>item. case item of JStr s \<Rightarrow> JStr (quoted s) | _ \<Rightarrow> item) items)
                    (JStr '','') @
                  [JStr '']'']))
            | JStr s \<Rightarrow> Inr (JStr (quoted s))
            | _ \<Rightarrow> Inr v))"

fun readValue :: "env \<Rightarrow> string \<Rightarrow> value_node \<Rightarrow> jsval" where
  "readValue e fieldType (BooleanValue b) = JBool b"
| "readValue e fieldType (FloatValue s) = JStr s"
| "readValue e fieldType (IntValue s) = JStr s"
| "readValue e fieldType (StringValue s) = JStr (quoted s)"
| "readValue e fieldType (EnumValue s) = JStr (quoted s)"
| "readValue e fieldType (ListValue vs) =
     (if isObjectType e fieldType then JNull
      else JArr ([JStr ''[''] @
             insertBetweenArrayItems (map (readValue e fieldType) vs) (JStr '','') @
             [JStr '']'']))"
| "readValue e fieldType (Variable n) =
     (if isObjectType e fieldType then JNull else JStr (CHR ''$'' # n))"
| "readValue e fieldType v = JNull"

definition splitProperty :: "string \<Rightarrow> string" where
  "splitProperty name = hd (splitOn CHR ''_'' name)"

definition splitOperator :: "string \<Rightarrow> string" where
  "splitOperator name = joinStrings ''_'' (tl (splitOn CHR ''_'' name))"

definition groupCondition :: "condition list \<Rightarrow> condition" where
  "groupCondition ns = Condition None None None None False True False JUndefined ns"

definition isConnectionContext :: "string option \<Rightarrow> bool" where
  "isConnectionContext ppn = (case ppn of None \<Rightarrow> False | Some s \<Rightarrow> s \<noteq> [] \<and> ConnectionSuffixRegex_test s)"

fun arrItems :: "jsval \<Rightarrow> jsval list" where
  "arrItems (JArr xs) = xs"
| "arrItems v = []"

lemma size_arrItems [termination_simp]: "x \<in> set (arrItems v) \<Longrightarrow> size x < size v"
  by (cases v) (auto simp: less_Suc_eq_le size_list_estimation')

text \<open>\<open>Array.isArray(value) && (!value.length || typeof value[0] === "object")\<close>.\<close>

definition isObjectArray :: "jsval \<Rightarrow> bool" where
  "isObjectArray v = (isArray v \<and> (arrItems v = [] \<or> typeofObject (hd (arrItems v))))"

text \<open>
  The runtime path: the filter is a deserialized variable. \<open>Object.entries\<close> of a
  string lists its characters under the keys \<open>0\<close>, \<open>1\<close>, ...; a GraphQL field name
  never is a number, so the lookup of such a key in the parent type finds no field
  and the read of its type throws: a non-empty string in the place of a filter object
  is a \<open>TypeError\<close>.
\<close>

fun createConditionTreesByObject ::
    "env \<Rightarrow> jsval \<Rightarrow> string \<Rightarrow> string option \<Rightarrow> error + condition list"
and createConditionTreesByObjectField ::
    "env \<Rightarrow> string \<Rightarrow> jsval \<Rightarrow> string \<Rightarrow> string option \<Rightarrow> error + condition list"
where
  "createConditionTreesByObject e (JArr items) pt ppn =
     eflatMap (\<lambda>item. createConditionTreesByObject e item pt ppn) items"
| "createConditionTreesByObject e (JObj kvs) pt ppn =
     eflatMap (\<lambda>(name, v). createConditionTreesByObjectField e name v pt ppn) kvs"
| "createConditionTreesByObject e (JStr s) pt ppn = (if s = [] then Inr [] else Inl TypeError)"
| "createConditionTreesByObject e (JNum n) pt ppn = Inr []"
| "createConditionTreesByObject e (JBool b) pt ppn = Inr []"
| "createConditionTreesByObject e JNull pt ppn = Inl TypeError"
| "createConditionTreesByObject e JUndefined pt ppn = Inl TypeError"
| "createConditionTreesByObjectField e field v pt ppn =
     (if isConnectionContext ppn \<and> field = ''node''
        then ebind (getTargetIfConnectionType e pt) (\<lambda>target.
               createConditionTreesByObject e v target ppn)
      else if isConnectionContext ppn \<and> field = ''edge''
        then ebind (fieldTypeOf e pt ''edges'') (\<lambda>edges.
               createConditionTreesByObject e v (unwrapType edges) ppn)
      else if field = ''OR''
        then ebind (getTargetIfConnectionType e pt) (\<lambda>target.
             ebind (if isArray v
                    then emap (\<lambda>source. ebind (createConditionTreesByObject e source pt ppn)
                                 (\<lambda>ns. Inr (groupCondition ns))) (arrItems v)
                    else Inl TypeError) (\<lambda>groups.
               Inr [Condition (Some target) ppn None None True False False JUndefined groups]))
      else if isObjectArray v
        then eflatMap (\<lambda>item. createConditionTreesByObject e item pt ppn) (arrItems v)
      else
        ebind (fieldTypeOf e pt (splitProperty field)) (\<lambda>t.
        ebind (getTargetIfConnectionType e pt) (\<lambda>target.
          if isObjectType e (unwrapType t)
          then ebind (createConditionTreesByObject e v (unwrapType t) (Some (splitProperty field)))
                 (\<lambda>ns. Inr [Condition (Some target) ppn (Some (splitProperty field))
                          (Some (splitOperator field)) False False
                          (RelationshipSuffixRegex_test pt) JNull ns])
          else ebind (mapConditionValue e v)
                 (\<lambda>mv. Inr [Condition (Some target) ppn (Some (splitProperty field))
                          (Some (splitOperator field)) False False
                          (RelationshipSuffixRegex_test pt) mv []]))))"

text \<open>The AST path: the filter is a literal of the query document.\<close>

fun listValues :: "value_node \<Rightarrow> value_node list option" where
  "listValues (ListValue vs) = Some vs"
| "listValues v = None"

fun createConditionTrees ::
    "env \<Rightarrow> value_node \<Rightarrow> string \<Rightarrow> string option \<Rightarrow> error + condition list"
and createConditionsByObjectFieldNode ::
    "env \<Rightarrow> string \<Rightarrow> value_node \<Rightarrow> string \<Rightarrow> string option \<Rightarrow> error + condition list"
where
  "createConditionTrees e (ObjectValue fs) pt ppn =
     eflatMap (\<lambda>(name, v). createConditionsByObjectFieldNode e name v pt ppn) fs"
| "createConditionTrees e (ListValue vs) pt ppn =
     eflatMap (\<lambda>listItem. createConditionTrees e listItem pt ppn) vs"
| "createConditionTrees e (Variable n) pt ppn =
     createConditionTreesByObject e (variables e n) pt ppn"
| "createConditionTrees e (StringValue s) pt ppn = Inr []"
| "createConditionTrees e (EnumValue s) pt ppn = Inr []"
| "createConditionTrees e (IntValue s) pt ppn = Inr []"
| "createConditionTrees e (FloatValue s) pt ppn = Inr []"
| "createConditionTrees e (BooleanValue b) pt ppn = Inr []"
| "createConditionTrees e NullValue pt ppn = Inr []"
| "createConditionsByObjectFieldNode e field v pt ppn =
     (if isConnectionContext ppn \<and> field = ''node''
        then ebind (getTargetIfConnectionType e pt) (\<lambda>target.
               createConditionTrees e v target ppn)
      else if isConnectionContext ppn \<and> field = ''edge''
        then ebind (fieldTypeOf e pt ''edges'') (\<lambda>edges.
               createConditionTrees e v (unwrapType edges) ppn)
      else if field = ''OR''
        then ebind (case v of
                      ListValue vs \<Rightarrow>
                        emap (\<lambda>x. ebind (createConditionTrees e x pt ppn)
                                (\<lambda>ns. Inr (groupCondition ns))) vs
                    | _ \<Rightarrow> Inl TypeError) (\<lambda>groups.
               Inr [Condition (Some pt) ppn None None True False False JUndefined groups])
      else if field = ''AND''
        then (case v of
                ListValue vs \<Rightarrow> eflatMap (\<lambda>x. createConditionTrees e x pt ppn) vs
              | _ \<Rightarrow> createConditionTrees e v pt ppn)
      else
        ebind (fieldTypeOf e pt (splitProperty field)) (\<lambda>t.
        ebind (getTargetIfConnectionType e pt) (\<lambda>target.
          if isObjectType e (unwrapType t)
          then ebind (createConditionTrees e v (unwrapType t) (Some (splitProperty field)))
                 (\<lambda>ns. Inr [Condition (Some target) ppn (Some (splitProperty field))
                          (Some (splitOperator field)) False False
                          (RelationshipSuffixRegex_test pt) JUndefined ns])
          else Inr [Condition (Some target) ppn (Some (splitProperty field))
                 (Some (splitOperator field)) False False
                 (RelationshipSuffixRegex_test pt) (readValue e (unwrapType t) v) []])))"

section \<open>The emitter: patterns and predicates\<close>

text \<open>
  Tokens are pushed as strings, but a condition's value is pushed as it is: a quoted
  string, a boolean, \<open>null\<close>, or the array of a list literal. So a token is a \<open>jsval\<close>.
\<close>

definition createPropertyMatchingPatternPart :: "condition list \<Rightarrow> bool \<Rightarrow> jsval list" where
  "createPropertyMatchingPatternPart conditionTrees isNode =
     (let items =
        map (\<lambda>c. optString (property c) @ '': '' @ toString (cvalue c))
          (filter (\<lambda>c. isNode = (\<not> isRelationship c) \<and> nested c = [] \<and>
                        \<not> isArray (cvalue c) \<and> \<not> hasOperator c) conditionTrees)
      in if items \<noteq> [] then [JStr (''{'' @ joinStrings '', '' items @ ''}'')] else [])"

fun isRelationshipCondition :: "condition \<Rightarrow> bool" where
  "isRelationshipCondition (Condition pt ppn p op orFlag groupFlag rel v ns) =
     ((ns \<noteq> [] \<and> \<not> groupFlag \<and> \<not> orFlag) \<or> list_ex isRelationshipCondition ns)"

fun getDeepFirstSearchPaths :: "condition \<Rightarrow> condition list \<Rightarrow> condition list list" where
  "getDeepFirstSearchPaths (Condition pt ppn p op orFlag groupFlag rel v ns) parentConditions =
     (let nextParentConditions =
            parentConditions @ [Condition pt ppn p op orFlag groupFlag rel v ns];
          nestedPaths =
            concat (map (\<lambda>nestedCondition.
                      getDeepFirstSearchPaths nestedCondition nextParentConditions)
                    (filter (\<lambda>nestedCondition. \<not> isRelationship nestedCondition \<and>
                                                 nested nestedCondition \<noteq> []) ns))
      in if nestedPaths \<noteq> [] then nestedPaths else [nextParentConditions])"

text \<open>
  \<open>arguments?.find((argument) => argument.name.value === name)?.value\<close> of a directive,
  then \<open>?.value\<close> of the value node found.
\<close>

definition directiveArgument :: "directive_node \<Rightarrow> string \<Rightarrow> jsval" where
  "directiveArgument d n =
     (case find (\<lambda>a. fst a = n) (darguments d) of
        None \<Rightarrow> JUndefined
      | Some a \<Rightarrow> nodeValue (snd a))"

definition createRelationshipPatternPart ::
  "directive_node option \<Rightarrow> string \<Rightarrow> condition list \<Rightarrow> jsval \<Rightarrow> bool \<Rightarrow> error + jsval list" where
  "createRelationshipPatternPart relationshipDirective fieldName searchConditionTrees level omitVariables =
     (case relationshipDirective of
        None \<Rightarrow> Inl TypeError
      | Some d \<Rightarrow>
          let relationshipType = directiveArgument d ''type'';
              relationshipDirection = directiveArgument d ''direction'';
              propertyMatchingPatternPart =
                createPropertyMatchingPatternPart searchConditionTrees False
          in Inr ([JStr (if relationshipDirection = JStr ''OUT'' then ''-'' else ''<-''),
                   JStr ''[''] @
                  (if omitVariables then [] else [JStr (''rel_'' @ fieldName @ toString level)]) @
                  [JStr ('':'' @ toString relationshipType)] @
                  propertyMatchingPatternPart @
                  [JStr '']'',
                   JStr (if relationshipDirection = JStr ''OUT'' then ''->'' else ''-'')]))"

fun canCreateFastExistentialExpression :: "condition list \<Rightarrow> bool" where
  "canCreateFastExistentialExpression [] = True"
| "canCreateFastExistentialExpression (head # rest) =
     (\<not> hasOperator head \<and>
      canCreateFastExistentialExpression rest \<and>
      list_all (\<lambda>n. (nested n = [] \<or>
                      (\<not> isOr n \<and> list_all (\<lambda>condition. \<not> hasOperator condition) (nested n))) \<and>
                     \<not> hasOperator n)
        (nested head))"

definition relationshipDirectiveOf :: "env \<Rightarrow> string \<Rightarrow> directive_node option" where
  "relationshipDirectiveOf e key =
     (case typeFieldsToDirectivesMap e key of
        None \<Rightarrow> None
      | Some ds \<Rightarrow> find (\<lambda>d. dname d = ''relationship'') ds)"

definition cypherDirectiveOf :: "env \<Rightarrow> string \<Rightarrow> directive_node option" where
  "cypherDirectiveOf e key =
     (case typeFieldsToDirectivesMap e key of
        None \<Rightarrow> None
      | Some ds \<Rightarrow> find (\<lambda>d. dname d = ''cypher'') ds)"

fun createExistentialExpressionPatternByPathRecursive ::
  "env \<Rightarrow> condition list \<Rightarrow> int \<Rightarrow> bool \<Rightarrow> nat \<Rightarrow> error + jsval list" where
  "createExistentialExpressionPatternByPathRecursive e [] level omitVariables index = Inr []"
| "createExistentialExpressionPatternByPathRecursive e (head # rest) level omitVariables index =
     (if isOr head \<or> isGroup head
      then createExistentialExpressionPatternByPathRecursive e rest level omitVariables index
      else
        ebind (typeName (parentType head)) (\<lambda>parentName.
        ebind (fieldTypeOf e parentName (optString (property head))) (\<lambda>t.
        ebind (if index = 0
               then ebind (toCamelCase parentName) (\<lambda>v.
                      Inr [JStr ''('', JStr (v @ show_int level), JStr '')''])
               else Inr []) (\<lambda>start.
        ebind (createRelationshipPatternPart
                 (relationshipDirectiveOf e
                    (parentName @ ''.'' @ ConnectionSuffixRegex_strip (optString (property head))))
                 (optString (property head)) (nested head)
                 (JStr (show_int level @ ''_'' @ show_nat index)) omitVariables) (\<lambda>rel.
        ebind (if omitVariables then Inr []
               else ebind (toCamelCase (unwrapType t)) (\<lambda>v.
                      Inr [JStr (v @ show_int level @ ''_'' @ show_nat index)])) (\<lambda>var.
        ebind (getTargetIfConnectionType e (unwrapType t)) (\<lambda>target.
        ebind (createExistentialExpressionPatternByPathRecursive e rest level omitVariables
                 (index + 1)) (\<lambda>more.
          Inr (start @ rel @ [JStr ''(''] @ var @ [JStr ('':'' @ target)] @
               createPropertyMatchingPatternPart (nested head) True @ [JStr '')''] @ more)))))))))"

text \<open>
  \<open>level\<close> is a number or a string and \<open>index\<close> a number or \<open>undefined\<close>; the accessor of
  a property is at \<open>level\<close>, or at \<open>level_index\<close> when there is an index.
\<close>

definition indexedLevel :: "jsval \<Rightarrow> nat option \<Rightarrow> jsval" where
  "indexedLevel level index =
     (case index of None \<Rightarrow> level | Some i \<Rightarrow> JStr (toString level @ ''_'' @ show_nat i))"

fun createPropertyConditionExpressions ::
  "condition \<Rightarrow> jsval \<Rightarrow> nat option \<Rightarrow> bool \<Rightarrow> error + jsval list list" where
  "createPropertyConditionExpressions (Condition pt ppn p op orFlag groupFlag rel v ns)
     level index includeEquality =
     (if orFlag
      then ebind (eflatMap (\<lambda>nestedCondition.
                    createPropertyConditionExpressions nestedCondition level index True)
                  (filter (\<lambda>c. \<not> isRelationshipCondition c) ns)) (\<lambda>ORConditions.
             Inr (if ORConditions \<noteq> []
                  then [[JStr ''(''] @ concat (insertBetweenGroups ORConditions [JStr ''OR'']) @
                        [JStr '')'']]
                  else []))
      else if \<not> groupFlag
      then (if hasOperator (Condition pt ppn p op orFlag groupFlag rel v ns) \<or> includeEquality
            then ebind (createSinglePropertyConditionExpression
                          (Condition pt ppn p op orFlag groupFlag rel v ns)
                          (indexedLevel level index)) (\<lambda>tokens. Inr [flat tokens])
            else Inr [])
      else ebind (emap (\<lambda>c. createPropertyConditionExpressions c level index includeEquality) ns)
             (\<lambda>results.
                Inr (insertBetweenGroups (filter (\<lambda>elements. elements \<noteq> []) (concat results))
                       [JStr ''AND''])))"

text \<open>
  The path positions of \<open>createExistentialWhereConditions\<close>: a group or an OR does not
  advance the index.
\<close>

fun indexPath :: "condition list \<Rightarrow> nat \<Rightarrow> (condition \<times> nat) list" where
  "indexPath [] i = []"
| "indexPath (c # cs) i = (c, i) # indexPath cs (if isGroup c \<or> isOr c then i else i + 1)"

definition createExistentialWhereConditions ::
  "condition list \<Rightarrow> int \<Rightarrow> error + jsval list list" where
  "createExistentialWhereConditions path level =
     ebind (eflatMap (\<lambda>(condition, index).
              eflatMap (\<lambda>nestedCondition.
                createPropertyConditionExpressions nestedCondition (JNum level) (Some index) False)
                (nested condition))
            (indexPath path 0)) (\<lambda>groups.
       Inr (insertBetweenGroups groups [JStr ''AND'']))"

definition createExistentialExpressionPatternByPathRoot ::
  "env \<Rightarrow> condition list \<Rightarrow> int \<Rightarrow> error + jsval list" where
  "createExistentialExpressionPatternByPathRoot e path level =
     (let canFast = canCreateFastExistentialExpression path in
      ebind (createExistentialExpressionPatternByPathRecursive e path level canFast 0)
        (\<lambda>patternElements.
           if canFast
           then Inr ([JStr ''exists'', JStr ''(''] @ patternElements @ [JStr '')''])
           else ebind (createExistentialWhereConditions path level) (\<lambda>conditions.
                  Inr ([JStr ''exists'', JStr ''{''] @ patternElements @ [JStr ''WHERE''] @
                       concat conditions @ [JStr ''}'']))))"

definition createConditionExpressions :: "env \<Rightarrow> condition list \<Rightarrow> int \<Rightarrow> error + jsval list" where
  "createConditionExpressions e path level =
     (if list_all (\<lambda>c. isGroup c \<or> isOr c \<or> hasOperator c \<or> nested c = []) path
      then ebind (eflatMap (\<lambda>c. createPropertyConditionExpressions c (JNum level) None False) path)
             (\<lambda>groups. Inr (concat groups))
      else createExistentialExpressionPatternByPathRoot e path level)"

text \<open>
  Modelled from the spec: \<open>shared/partition\<close> is not among the sources. The spec describes
  its use as splitting a list into the items that satisfy the predicate and everything
  else, each in its order.
\<close>

definition partitionBy :: "('a \<Rightarrow> bool) \<Rightarrow> 'a list \<Rightarrow> 'a list \<times> 'a list" where
  "partitionBy p xs = (filter p xs, filter (\<lambda>x. \<not> p x) xs)"

definition createWhereCondition :: "env \<Rightarrow> condition list \<Rightarrow> int \<Rightarrow> error + jsval list" where
  "createWhereCondition e conditionTrees level =
     (let relationshipConditions = filter isRelationshipCondition conditionTrees;
          allPaths = concat (map (\<lambda>c. getDeepFirstSearchPaths c []) relationshipConditions);
          (ORPaths, ANDPaths) = partitionBy (\<lambda>path. list_ex isOr path) allPaths
      in ebind (emap (\<lambda>path. createConditionExpressions e path level) ORPaths) (\<lambda>orGroups.
         ebind (emap (\<lambda>path. createConditionExpressions e path level) ANDPaths) (\<lambda>andGroups.
         ebind (eflatMap (\<lambda>c. createPropertyConditionExpressions c (JNum level) None False)
                  conditionTrees) (\<lambda>propertyGroups.
           let elements =
                 concat (insertBetweenGroups
                   ([concat (insertBetweenGroups orGroups [JStr ''OR''])] @ andGroups @ propertyGroups)
                   [JStr ''AND''])
           in Inr (if elements \<noteq> [] then JStr ''WHERE'' # elements else [])))))"

section \<open>The compiler state\<close>

text \<open>
  A token has the one type \<open>property-selector\<close>, so its record keeps the level and the
  value. The stacks grow at the end (\<open>push\<close>) and shrink there (\<open>pop\<close>, which leaves an
  empty array empty). An entry of \<open>typePath\<close> is \<open>undefined\<close> when \<open>schema.getType\<close> finds
  no type of the name.
\<close>

record token =
  tlevel :: int
  tvalue :: "jsval list"

datatype comprehension_flag = SingleFlag | ListFlag

record gfield =
  gfName :: string
  gfType :: gtype

record cstate =
  fieldPath :: "gfield list"
  fieldNodePath :: "field_node list"
  typePath :: "string option list"
  listComprehensionFlagPath :: "comprehension_flag option list"
  level :: int
  buffer :: "jsval list"
  tokenBuffer :: "token list"

text \<open>\<open>xs[xs.length - k]\<close>, \<open>undefined\<close> outside the array.\<close>

definition fromEnd :: "'a list \<Rightarrow> nat \<Rightarrow> 'a option" where
  "fromEnd xs k = (if 1 \<le> k \<and> k \<le> length xs then Some (xs ! (length xs - k)) else None)"

definition typeFromEnd :: "cstate \<Rightarrow> nat \<Rightarrow> string option" where
  "typeFromEnd s k = (case fromEnd (typePath s) k of None \<Rightarrow> None | Some t \<Rightarrow> t)"

text \<open>
  \<open>token.value.push(...)\<close> and \<open>last(this.tokenBuffer)!.value.push(...)\<close>: the token
  object is shared with the buffer, so the push is an update of the buffer's last
  entry; without one the read of \<open>value\<close> throws.
\<close>

definition pushToLastToken :: "jsval list \<Rightarrow> cstate \<Rightarrow> error + cstate" where
  "pushToLastToken toks s =
     (if tokenBuffer s = [] then Inl TypeError
      else Inr (s\<lparr>tokenBuffer :=
                  butlast (tokenBuffer s) @
                  [(last (tokenBuffer s))\<lparr>tvalue := tvalue (last (tokenBuffer s)) @ toks\<rparr>]\<rparr>))"

text \<open>\<open>Array.prototype.findIndex\<close>: \<open>-1\<close> when no item satisfies the predicate.\<close>

fun findIndex :: "('a \<Rightarrow> bool) \<Rightarrow> 'a list \<Rightarrow> int" where
  "findIndex p [] = - 1"
| "findIndex p (x # xs) =
     (if p x then 0 else (let i = findIndex p xs in if i < 0 then - 1 else i + 1))"

definition getClosestNodeLevel :: "cstate \<Rightarrow> int" where
  "getClosestNodeLevel s =
     int (length (fieldPath s)) - 2 -
     findIndex (\<lambda>f. gfName f \<noteq> ''node'' \<and> \<not> ConnectionSuffixRegex_test (gfName f))
       (rev (butlast (fieldPath s)))"

definition createCypherCodeCallExpression :: "cstate \<Rightarrow> directive_node \<Rightarrow> error + jsval list" where
  "createCypherCodeCallExpression s cypherDirective =
     (case find (\<lambda>a. fst a = ''statement'') (darguments cypherDirective) of
        None \<Rightarrow> Inl TypeError
      | Some statementArgument \<Rightarrow>
          ebind (typeName (typeFromEnd s 2)) (\<lambda>n.
          ebind (toCamelCase n) (\<lambda>v.
            Inr [JStr ''apoc.cypher.runFirstColumn('',
                 JStr (CHR 0x22 # toString (nodeValue (snd statementArgument)) @ [CHR 0x22]),
                 JStr '','', JStr ''{'', JStr ''this'', JStr '':'',
                 JStr (v @ show_int (getClosestNodeLevel s)),
                 JStr '','', JStr ''cypherParams'', JStr '':'', JStr ''$cypherParams'',
                 JStr ''}'', JStr '')''])))"

definition createCypherBasedListComprehension ::
  "cstate \<Rightarrow> directive_node \<Rightarrow> error + jsval list" where
  "createCypherBasedListComprehension s cypherDirective =
     (if fieldPath s = [] then Inl TypeError
      else ebind (toCamelCase (unwrapType (gfType (last (fieldPath s))))) (\<lambda>v.
           ebind (createCypherCodeCallExpression s cypherDirective) (\<lambda>call.
             Inr ([JStr ''['', JStr (v @ show_int (level s)), JStr ''in''] @ call @
                  [JStr ''|'', JStr (v @ show_int (level s))]))))"

definition createNodeMatchingExpression ::
  "env \<Rightarrow> cstate \<Rightarrow> string \<Rightarrow> condition list \<Rightarrow> error + jsval list" where
  "createNodeMatchingExpression e s fieldType searchConditionTrees =
     ebind (toCamelCase fieldType) (\<lambda>v.
     ebind (createWhereCondition e searchConditionTrees (level s)) (\<lambda>whereCondition.
       Inr ([JStr ''('', JStr (v @ show_int (level s)), JStr '':'', JStr fieldType] @
            createPropertyMatchingPatternPart searchConditionTrees True @
            [JStr '')''] @ whereCondition)))"

section \<open>The condition trees of a field, and the tenant compiler's override\<close>

definition findArgument :: "argument_node list \<Rightarrow> string \<Rightarrow> argument_node option" where
  "findArgument args n = find (\<lambda>arg. fst arg = n) args"

definition createConditionTreesByField_base ::
  "env \<Rightarrow> argument_node list \<Rightarrow> string \<Rightarrow> string \<Rightarrow> error + condition list" where
  "createConditionTreesByField_base e args fieldType fieldName =
     (case findArgument args ''where'' of
        None \<Rightarrow> Inr []
      | Some whereArg \<Rightarrow> createConditionTrees e (snd whereArg) fieldType (Some fieldName))"

definition fieldsWithoutFilters :: "string list" where
  "fieldsWithoutFilters =
     [''sentBy'', ''includedIn'', ''updatedBy'', ''proposedBy'', ''creator'', ''sentBy'',
      ''mappingInstances'']"

definition tenantCondition :: "(string \<rightharpoonup> gtype) \<Rightarrow> value_node" where
  "tenantCondition fs =
     (if fs ''tenantId'' \<noteq> None
      then ObjectValue [(''tenantId'', Variable ''cypherParams.tenantId'')]
      else ObjectValue [(''tenantIds_INCLUDES'', Variable ''cypherParams.tenantId'')])"

definition nodeCondition :: "(string \<rightharpoonup> gtype) \<Rightarrow> string \<Rightarrow> value_node" where
  "nodeCondition fs fieldName =
     (if ConnectionSuffixRegex_test fieldName
      then ObjectValue [(''node'', tenantCondition fs)]
      else tenantCondition fs)"

definition extendedWhereArgumentValue ::
  "(string \<rightharpoonup> gtype) \<Rightarrow> string \<Rightarrow> argument_node option \<Rightarrow> value_node" where
  "extendedWhereArgumentValue fs fieldName whereArg =
     (case whereArg of
        Some w \<Rightarrow> ObjectValue [(''AND'', ListValue [snd w, nodeCondition fs fieldName])]
      | None \<Rightarrow> nodeCondition fs fieldName)"

definition createConditionTreesByField_tenant ::
  "env \<Rightarrow> argument_node list \<Rightarrow> string \<Rightarrow> string \<Rightarrow> error + condition list" where
  "createConditionTreesByField_tenant e args fieldType fieldName =
     ebind (getTargetIfConnectionType e fieldType) (\<lambda>targetType.
     ebind (getFields e targetType) (\<lambda>fs.
       if (fs ''tenantId'' = None \<and> fs ''tenantIds'' = None) \<or>
          fieldType \<in> set [''FlexEntity''] \<or>
          fieldName \<in> set fieldsWithoutFilters
       then createConditionTreesByField_base e args fieldType fieldName
       else
         let whereArg = findArgument args ''where'';
             extendedWhereArgument = (''where'', extendedWhereArgumentValue fs fieldName whereArg);
             newArgs =
               (if list_ex (\<lambda>arg. fst arg = ''where'') args
                then map (\<lambda>arg. if fst arg = ''where'' then extendedWhereArgument else arg) args
                else args @ [extendedWhereArgument])
         in createConditionTreesByField_base e newArgs fieldType fieldName))"

text \<open>
  \<open>createConditionTreesByField\<close> is a protected method the tenant class overrides; the
  base class calls it through \<open>this\<close>.
\<close>

definition createConditionTreesByField ::
  "env \<Rightarrow> argument_node list \<Rightarrow> string \<Rightarrow> string \<Rightarrow> error + condition list" where
  "createConditionTreesByField e args fieldType fieldName =
     (if tenantBased e then createConditionTreesByField_tenant e args fieldType fieldName
      else createConditionTreesByField_base e args fieldType fieldName)"

section \<open>Options\<close>

text \<open>
  \<open>{...a, [key]: v}\<close>: the key keeps its place when the object has it, and is added at
  the end otherwise.
\<close>

fun objSet :: "(string \<times> jsval) list \<Rightarrow> string \<Rightarrow> jsval \<Rightarrow> (string \<times> jsval) list" where
  "objSet [] k v = [(k, v)]"
| "objSet (p # ps) k v = (if fst p = k then (k, v) # ps else p # objSet ps k v)"

fun readOptionsNode :: "env \<Rightarrow> value_node \<Rightarrow> jsval" where
  "readOptionsNode e (Variable n) = variables e n"
| "readOptionsNode e (ListValue vs) = JArr (map (readOptionsNode e) vs)"
| "readOptionsNode e (ObjectValue fs) =
     JObj (foldl (\<lambda>a kv. objSet a (fst kv) (snd kv)) []
             (map (\<lambda>(name, v). (name, readOptionsNode e v)) fs))"
| "readOptionsNode e (StringValue s) = JStr (quoted s)"
| "readOptionsNode e NullValue = JNull"
| "readOptionsNode e (EnumValue s) = JStr s"
| "readOptionsNode e (IntValue s) = JStr s"
| "readOptionsNode e (FloatValue s) = JStr s"
| "readOptionsNode e (BooleanValue b) = JBool b"

definition readOptions :: "env \<Rightarrow> value_node option \<Rightarrow> jsval" where
  "readOptions e node = (case node of None \<Rightarrow> JObj [] | Some n \<Rightarrow> readOptionsNode e n)"

text \<open>
  Modelled from the spec: \<open>shared/cast-to-array\<close> is not among the sources. The spec gives
  \<open>sort\<close> as an object or a list of objects, and absent when not sorting: an array is
  itself, an empty value is no item, and any other value is the one item.
\<close>

definition castToArray :: "jsval \<Rightarrow> jsval list" where
  "castToArray v = (if isArray v then arrItems v else if isEmptyValue v then [] else [v])"

text \<open>\<open>Object.entries\<close>; it throws on \<open>null\<close> and \<open>undefined\<close>.\<close>

fun indexed :: "nat \<Rightarrow> jsval list \<Rightarrow> (string \<times> jsval) list" where
  "indexed i [] = []"
| "indexed i (x # xs) = (show_nat i, x) # indexed (i + 1) xs"

fun objectEntries :: "jsval \<Rightarrow> error + (string \<times> jsval) list" where
  "objectEntries (JObj kvs) = Inr kvs"
| "objectEntries (JArr xs) = Inr (indexed 0 xs)"
| "objectEntries (JStr s) = Inr (indexed 0 (map (\<lambda>c. JStr [c]) s))"
| "objectEntries (JNum n) = Inr []"
| "objectEntries (JBool b) = Inr []"
| "objectEntries JNull = Inl TypeError"
| "objectEntries JUndefined = Inl TypeError"

text \<open>
  \<open>options.sort\<close>, \<open>options.offset\<close>, \<open>options.limit\<close>: a property read throws on \<open>null\<close> and
  \<open>undefined\<close>. (On an array \<open>sort\<close> is the array method, a function with no entries of
  its own: it yields no sort item, as the \<open>undefined\<close> read here does.)
\<close>

definition readProp :: "jsval \<Rightarrow> string \<Rightarrow> error + jsval" where
  "readProp v k = (if isEmptyValue v then Inl TypeError else Inr (getProp v k))"

definition processOptions :: "env \<Rightarrow> cstate \<Rightarrow> argument_node list \<Rightarrow> error + jsval list" where
  "processOptions e s args =
     (let options = readOptions e (map_option snd (findArgument args ''options'')) in
      ebind (readProp options ''sort'') (\<lambda>sort.
      ebind (eflatMap objectEntries (castToArray sort)) (\<lambda>entries.
      ebind (emap (\<lambda>(key, v).
               ebind (typeName (typeFromEnd s 1)) (\<lambda>n.
               ebind (toCamelCase n) (\<lambda>var.
                 Inr (JStr (var @ show_int (level s) @ ''.'' @ key @ '' '' @ toString v)))))
             entries) (\<lambda>sortItems.
      ebind (readProp options ''offset'') (\<lambda>offset.
      ebind (readProp options ''limit'') (\<lambda>limit.
        Inr ((if sortItems \<noteq> []
              then JStr ''ORDER BY'' # insertBetweenArrayItems sortItems (JStr '','')
              else []) @
             (if \<not> isEmptyValue offset then [JStr ''SKIP'', JStr (toString offset)] else []) @
             (if truthy limit then [JStr ''LIMIT'', JStr (toString limit)] else []))))))))"

section \<open>The visitor\<close>

definition visitOperation :: "env \<Rightarrow> cstate" where
  "visitOperation e =
     \<lparr>fieldPath = [], fieldNodePath = [],
      typePath = [if schemaTypes e ''Query'' \<noteq> None then Some ''Query'' else None],
      listComprehensionFlagPath = [], level = - 1, buffer = [], tokenBuffer = []\<rparr>"

definition lastType :: "cstate \<Rightarrow> string option" where
  "lastType s = typeFromEnd s 1"

definition tryGetSystemFieldValue :: "cstate \<Rightarrow> field_node \<Rightarrow> jsval list option" where
  "tryGetSystemFieldValue s field =
     (if fnName field = ''__typename''
      then Some [JStr (fnName field), JStr '':'',
                 JStr (case lastType s of Some n \<Rightarrow> quoted n | None \<Rightarrow> ''null'')]
      else None)"

text \<open>\<open>fieldNode.alias?.value || fieldNode.name.value\<close>.\<close>

definition aliasOrName :: "field_node \<Rightarrow> string" where
  "aliasOrName f = (case fnAlias f of Some a \<Rightarrow> if a \<noteq> [] then a else fnName f | None \<Rightarrow> fnName f)"

definition getCypherDirective :: "env \<Rightarrow> cstate \<Rightarrow> error + directive_node option" where
  "getCypherDirective e s =
     ebind (typeName (typeFromEnd s 2)) (\<lambda>n.
       if fieldPath s = [] then Inl TypeError
       else Inr (cypherDirectiveOf e (n @ ''.'' @ gfName (last (fieldPath s)))))"

definition getRelationshipDirective :: "env \<Rightarrow> cstate \<Rightarrow> error + directive_node option" where
  "getRelationshipDirective e s =
     (if fieldPath s = [] then Inl TypeError
      else if ConnectionSuffixRegex_test (gfName (last (fieldPath s))) then Inr None
      else
        let shiftToRelationshipField = (if gfName (last (fieldPath s)) = ''edges'' then 1 else 0 :: nat)
        in ebind (typeName (typeFromEnd s (2 + shiftToRelationshipField))) (\<lambda>n.
             Inr (relationshipDirectiveOf e
                    (n @ ''.'' @
                     (case fromEnd (fieldPath s) (1 + shiftToRelationshipField) of
                        None \<Rightarrow> ''undefined''
                      | Some f \<Rightarrow> ConnectionSuffixRegex_strip (gfName f))))))"

definition nodeVariableName :: "env \<Rightarrow> cstate \<Rightarrow> error + string" where
  "nodeVariableName e s =
     ebind (typeName (typeFromEnd s 3)) (\<lambda>n.
     ebind (getTargetIfConnectionType e n) (\<lambda>target.
     ebind (toCamelCase target) (\<lambda>v. Inr (v @ show_int (level s - 1)))))"

definition insertTopLevelExpression ::
  "env \<Rightarrow> cstate \<Rightarrow> field_node \<Rightarrow> string \<Rightarrow> directive_node option \<Rightarrow> error + jsval list" where
  "insertTopLevelExpression e s fieldNode fieldType cypherDirective =
     ebind (toCamelCase fieldType) (\<lambda>v.
       let name = v @ show_int (level s) in
       case cypherDirective of
         Some d \<Rightarrow>
           ebind (createCypherCodeCallExpression s d) (\<lambda>call.
             Inr ([JStr ''UNWIND''] @ call @
                  [JStr ''as'', JStr name, JStr ''RETURN'', JStr name]))
       | None \<Rightarrow>
           ebind (createConditionTreesByField e (fnArguments fieldNode) fieldType (fnName fieldNode))
             (\<lambda>searchConditionTrees.
           ebind (createNodeMatchingExpression e s fieldType searchConditionTrees) (\<lambda>matching.
             Inr ([JStr ''MATCH''] @ matching @ [JStr ''RETURN'', JStr name]))))"

definition createRelationshipBasedComprehension ::
  "env \<Rightarrow> cstate \<Rightarrow> field_node \<Rightarrow> directive_node option \<Rightarrow> error + jsval list" where
  "createRelationshipBasedComprehension e s fieldNode relationshipDirective =
     (let isEdges = (fnName fieldNode = ''edges'') in
      ebind (typeName (typeFromEnd s (if isEdges then 2 else 1))) (\<lambda>relationshipType.
      ebind (getTargetIfConnectionType e relationshipType) (\<lambda>targetType.
      ebind (case fromEnd (fieldNodePath s) (if isEdges then 2 else 1) of
               None \<Rightarrow> Inl TypeError | Some n \<Rightarrow> Inr n) (\<lambda>relationshipFieldNode.
      ebind (createConditionTreesByField e (fnArguments relationshipFieldNode) relationshipType
               (fnName relationshipFieldNode)) (\<lambda>searchConditionTrees.
      ebind (typeName (typeFromEnd s (if isEdges then 3 else 2))) (\<lambda>sourceType.
      ebind (toCamelCase sourceType) (\<lambda>source.
      ebind (createRelationshipPatternPart relationshipDirective (fnName fieldNode)
               searchConditionTrees (JNum (level s)) False) (\<lambda>rel.
      ebind (createNodeMatchingExpression e s targetType searchConditionTrees) (\<lambda>matching.
      ebind (if isEdges then Inr (''rel_'' @ fnName fieldNode @ show_int (level s))
             else ebind (toCamelCase targetType) (\<lambda>v. Inr (v @ show_int (level s)))) (\<lambda>yielded.
        Inr ([JStr ''['',
              JStr (''('' @ source @ show_int (getClosestNodeLevel s) @ '')'')] @
             rel @ matching @ [JStr ''|'', JStr yielded])))))))))))"

definition setLastFlag :: "comprehension_flag \<Rightarrow> cstate \<Rightarrow> cstate" where
  "setLastFlag fl s =
     s\<lparr>listComprehensionFlagPath :=
         (listComprehensionFlagPath s)[length (listComprehensionFlagPath s) - 1 := Some fl]\<rparr>"

text \<open>
  \<open>visitField\<close> in three steps. \<open>enterField\<close> is its opening: the level goes up and a new
  token is pushed. \<open>pushField\<close> is the four pushes after the schema field is found.
  \<open>emitField\<close> is the rest of the body, the dispatch on the level and on the kind of
  field; it returns the "handled" flag (\<open>undefined\<close> is \<open>False\<close>).
\<close>

definition enterField :: "cstate \<Rightarrow> cstate" where
  "enterField s =
     s\<lparr>level := level s + 1,
       tokenBuffer := tokenBuffer s @ [\<lparr>tlevel = level s + 1, tvalue = []\<rparr>]\<rparr>"

definition pushField :: "field_node \<Rightarrow> gtype \<Rightarrow> cstate \<Rightarrow> cstate" where
  "pushField fieldNode t s =
     s\<lparr>fieldNodePath := fieldNodePath s @ [fieldNode],
       fieldPath := fieldPath s @ [\<lparr>gfName = fnName fieldNode, gfType = t\<rparr>],
       listComprehensionFlagPath := listComprehensionFlagPath s @ [None],
       typePath := typePath s @ [Some (unwrapType t)]\<rparr>"

definition emitField ::
  "env \<Rightarrow> field_node \<Rightarrow> gtype \<Rightarrow> directive_node option \<Rightarrow> directive_node option \<Rightarrow> cstate
    \<Rightarrow> error + bool \<times> cstate" where
  "emitField e fieldNode t cypherDirective relationshipDirective s2 =
     (let isConnection = ConnectionSuffixRegex_test (fnName fieldNode);
          fieldType = unwrapType t
      in
      if level s2 = 0
      then ebind (insertTopLevelExpression e s2 fieldNode fieldType cypherDirective)
             (\<lambda>toks. ebind (pushToLastToken toks s2) (\<lambda>s3. Inr (False, s3)))
      else if isScalarType e fieldType \<or> isEnumType e fieldType
      then ebind (case cypherDirective of
                    Some d \<Rightarrow>
                      ebind (createCypherCodeCallExpression s2 d) (\<lambda>call.
                        Inr ([JStr (aliasOrName fieldNode), JStr '':''] @ call @
                             (if isListType (unwrapNullableType t) then []
                              else [JStr ''[0]''])))
                  | None \<Rightarrow> Inr [JStr (''.'' @ fnName fieldNode)])
             (\<lambda>toks. ebind (pushToLastToken toks s2) (\<lambda>s3. Inr (False, s3)))
      else
        ebind (pushToLastToken [JStr (aliasOrName fieldNode), JStr '':''] s2) (\<lambda>s3.
          if cypherDirective = None \<and> relationshipDirective = None
          then (if fnName fieldNode = ''node''
                then ebind (nodeVariableName e s3) (\<lambda>v.
                     ebind (pushToLastToken [JStr v] s3) (\<lambda>s4. Inr (False, s4)))
                else if \<not> isConnection
                then ebind (pushToLastToken [JStr ''null''] s3) (\<lambda>s4. Inr (True, s4))
                else Inr (False, s3))
          else
            let s4 = setLastFlag
                       (if isListType (unwrapNullableType t) then ListFlag else SingleFlag) s3
            in case cypherDirective of
                 Some d \<Rightarrow>
                   ebind (createCypherBasedListComprehension s4 d) (\<lambda>toks.
                   ebind (pushToLastToken toks s4) (\<lambda>s5. Inr (False, s5)))
               | None \<Rightarrow>
                   ebind (createRelationshipBasedComprehension e s4 fieldNode
                            relationshipDirective) (\<lambda>toks.
                   ebind (pushToLastToken toks s4) (\<lambda>s5. Inr (False, s5)))))"

definition visitField :: "env \<Rightarrow> field_node \<Rightarrow> cstate \<Rightarrow> error + bool \<times> cstate" where
  "visitField e fieldNode s =
     (let s1 = enterField s
      in case tryGetSystemFieldValue s1 fieldNode of
           Some systemValue \<Rightarrow>
             ebind (pushToLastToken systemValue s1) (\<lambda>s2. Inr (False, s2))
         | None \<Rightarrow>
             ebind (typeName (lastType s1)) (\<lambda>parent.
             ebind (fieldTypeOf e parent (fnName fieldNode)) (\<lambda>t.
               let s2 = pushField fieldNode t s1 in
               ebind (getCypherDirective e s2) (\<lambda>cypherDirective.
               ebind (getRelationshipDirective e s2) (\<lambda>relationshipDirective.
                 emitField e fieldNode t cypherDirective relationshipDirective s2)))))"

definition visitEndField :: "env \<Rightarrow> field_node \<Rightarrow> cstate \<Rightarrow> error + cstate" where
  "visitEndField e fieldNode s =
     ebind (if level s = 0 \<and> tokenBuffer s \<noteq> []
            then ebind (processOptions e s (fnArguments fieldNode)) (\<lambda>toks. pushToLastToken toks s)
            else Inr s) (\<lambda>s1.
       if tryGetSystemFieldValue s1 fieldNode \<noteq> None
       then Inr (s1\<lparr>level := level s1 - 1\<rparr>)
       else
         let listComprehensionFlag =
               (if listComprehensionFlagPath s1 = [] then None
                else last (listComprehensionFlagPath s1));
             s2 = s1\<lparr>listComprehensionFlagPath := butlast (listComprehensionFlagPath s1)\<rparr>
         in ebind (case listComprehensionFlag of
                     Some fl \<Rightarrow>
                       if level s2 > 0
                       then pushToLastToken
                              (if fl = ListFlag then [JStr '']''] else [JStr '']'', JStr ''[0]'']) s2
                       else Inr s2
                   | None \<Rightarrow> Inr s2) (\<lambda>s3.
              Inr (s3\<lparr>fieldNodePath := butlast (fieldNodePath s3),
                      fieldPath := butlast (fieldPath s3),
                      typePath := butlast (typePath s3),
                      level := level s3 - 1\<rparr>)))"

datatype parent_kind = OperationDefinition | Field | InlineFragment | FragmentDefinition

definition visitEndSelectionSet :: "parent_kind \<Rightarrow> cstate \<Rightarrow> cstate" where
  "visitEndSelectionSet parentNode s =
     (if parentNode = FragmentDefinition \<or> parentNode = InlineFragment \<or> level s = - 1 then s
      else
        let (thisLevelFieldTokens, upperLevelFieldTokens) =
              partitionBy (\<lambda>t. tlevel t > level s) (tokenBuffer s);
            projection =
              [JStr ''{''] @
              concat (insertBetweenGroups (map tvalue thisLevelFieldTokens) [JStr '','']) @
              [JStr ''}'']
        in if upperLevelFieldTokens = []
           then s\<lparr>tokenBuffer := [], buffer := buffer s @ projection\<rparr>
           else s\<lparr>tokenBuffer :=
                    butlast upperLevelFieldTokens @
                    [(last upperLevelFieldTokens)
                       \<lparr>tvalue := tvalue (last upperLevelFieldTokens) @ projection\<rparr>]\<rparr>)"

definition visitInlineFragment :: "env \<Rightarrow> string option \<Rightarrow> cstate \<Rightarrow> error + cstate" where
  "visitInlineFragment e typeCondition s =
     (case typeCondition of
        None \<Rightarrow> Inl (ApolloError ''Type condition is not specified'')
      | Some n \<Rightarrow>
          Inr (s\<lparr>typePath := typePath s @ [if schemaTypes e n \<noteq> None then Some n else None]\<rparr>))"

definition visitEndInlineFragment :: "cstate \<Rightarrow> cstate" where
  "visitEndInlineFragment s = s\<lparr>typePath := butlast (typePath s)\<rparr>"

definition compile :: "cstate \<Rightarrow> string \<times> cstate" where
  "compile s =
     (let b = buffer s @ concat (map tvalue (tokenBuffer s))
      in (join '' '' b, s\<lparr>buffer := b, tokenBuffer := []\<rparr>))"

section \<open>The traversal driver\<close>

text \<open>
  What the driver reads of \<open>GraphQLResolveInfo\<close>: the root field's name, the fragment
  definitions by name (each its selection set) and the operation (its selection set).
\<close>

record resolve_info =
  fieldName :: string
  fragments :: "string \<rightharpoonup> selection list"
  operation :: "selection list"

text \<open>
  The walk returns, beside its result, the compiler states it passed through: the state
  after each visitor callback that returned, in order, each with the number of inline
  fragments open at that point.
\<close>

type_synonym trace = "(nat \<times> cstate) list"

definition observe :: "nat \<Rightarrow> error + cstate \<Rightarrow> trace \<times> (error + cstate)" where
  "observe d r = (case r of Inl err \<Rightarrow> ([], Inl err) | Inr s \<Rightarrow> ([(d, s)], Inr s))"

definition tbind ::
  "trace \<times> (error + cstate) \<Rightarrow> (cstate \<Rightarrow> trace \<times> (error + cstate)) \<Rightarrow> trace \<times> (error + cstate)" where
  "tbind m f =
     (case m of
        (tr, Inl err) \<Rightarrow> (tr, Inl err)
      | (tr, Inr s) \<Rightarrow> (case f s of (tr', r) \<Rightarrow> (tr @ tr', r)))"

text \<open>
  A fragment may spread itself, and then the source recurses without end. The walk
  takes fuel, one unit for each node it enters, and ends in \<open>OutOfFuel\<close> when it has none.
\<close>

fun walk ::
    "nat \<Rightarrow> env \<Rightarrow> resolve_info \<Rightarrow> nat \<Rightarrow> selection \<Rightarrow> cstate \<Rightarrow> trace \<times> (error + cstate)"
and walkSelectionSet ::
    "nat \<Rightarrow> env \<Rightarrow> resolve_info \<Rightarrow> nat \<Rightarrow> parent_kind \<Rightarrow> selection list option \<Rightarrow> cstate
      \<Rightarrow> trace \<times> (error + cstate)"
and walkSelections ::
    "nat \<Rightarrow> env \<Rightarrow> resolve_info \<Rightarrow> nat \<Rightarrow> selection list \<Rightarrow> cstate \<Rightarrow> trace \<times> (error + cstate)"
where
  "walk 0 e info d node s = ([], Inl OutOfFuel)"
| "walk (Suc n) e info d (SelField f) s =
     (case visitField e f s of
        Inl err \<Rightarrow> ([], Inl err)
      | Inr (isHandled, s1) \<Rightarrow>
          tbind ([(d, s1)], Inr s1) (\<lambda>s1.
          tbind (if \<not> isHandled then walkSelectionSet n e info d Field (fnSelectionSet f) s1
                 else ([], Inr s1)) (\<lambda>s2.
            observe d (visitEndField e f s2))))"
| "walk (Suc n) e info d (SelInlineFragment typeCondition sels) s =
     tbind (observe (d + 1) (visitInlineFragment e typeCondition s)) (\<lambda>s1.
     tbind (walkSelectionSet n e info (d + 1) InlineFragment (Some sels) s1) (\<lambda>s2.
       observe d (Inr (visitEndInlineFragment s2))))"
| "walk (Suc n) e info d (SelFragmentSpread name) s =
     (case fragments info name of
        None \<Rightarrow> ([], Inl TypeError)
      | Some sels \<Rightarrow> walkSelectionSet n e info d FragmentDefinition (Some sels) s)"
| "walkSelectionSet n e info d parentNode None s = ([], Inr s)"
| "walkSelectionSet n e info d parentNode (Some sels) s =
     tbind (walkSelections n e info d
              (filter (\<lambda>selection.
                 parentNode \<noteq> OperationDefinition \<or>
                 (case selection of SelField f \<Rightarrow> fnName f = fieldName info | _ \<Rightarrow> False)) sels) s)
       (\<lambda>s1. observe d (Inr (visitEndSelectionSet parentNode s1)))"
| "walkSelections n e info d [] s = ([], Inr s)"
| "walkSelections n e info d (selection # rest) s =
     tbind (walk n e info d selection s) (\<lambda>s1. walkSelections n e info d rest s1)"

text \<open>
  \<open>traverse.walk(operation)\<close> on a compiler in any state, then \<open>compile()\<close>: the Cypher
  string, or the error thrown on the way.
\<close>

definition walkOperation :: "nat \<Rightarrow> env \<Rightarrow> resolve_info \<Rightarrow> cstate \<Rightarrow> trace \<times> (error + cstate)" where
  "walkOperation n e info s =
     tbind (observe 0 (Inr (visitOperation e))) (\<lambda>s1.
       walkSelectionSet n e info 0 OperationDefinition (Some (operation info)) s1)"

definition compileQuery :: "nat \<Rightarrow> env \<Rightarrow> resolve_info \<Rightarrow> cstate \<Rightarrow> error + string" where
  "compileQuery n e info s =
     (case snd (walkOperation n e info s) of
        Inl err \<Rightarrow> Inl err
      | Inr s1 \<Rightarrow> Inr (fst (compile s1)))"

section \<open>An example schema\<close>

text \<open>
  A small schema in the shape of the one the repository's tests run on: agreements with
  a tenant discriminator, their counterparties through a \<open>HAS_PARTNER\<close> relationship,
  and the relay-style connection over the same relationship.
\<close>

definition exTypes :: "(string \<times> type_def) list" where
  "exTypes =
     [(''Query'', \<lparr>tkind = ObjectKind, tfields =
         [(''baseAgreements'', ListType (NamedType ''BaseAgreement''))]\<rparr>),
      (''BaseAgreement'', \<lparr>tkind = ObjectKind, tfields =
         [(''id'', NonNullType (NamedType ''ID'')),
          (''name'', NamedType ''String''),
          (''status'', NamedType ''Status''),
          (''version'', NamedType ''Int''),
          (''tenantId'', NamedType ''String''),
          (''counterparties'', ListType (NamedType ''Organization'')),
          (''counterpartiesConnection'', NamedType ''BaseAgreementCounterpartiesConnection'')]\<rparr>),
      (''BaseAgreementCounterpartiesConnection'', \<lparr>tkind = ObjectKind, tfields =
         [(''edges'', ListType (NamedType ''BaseAgreementCounterpartiesRelationship''))]\<rparr>),
      (''BaseAgreementCounterpartiesRelationship'', \<lparr>tkind = ObjectKind, tfields =
         [(''role'', NamedType ''String''),
          (''isApprovalRequired'', NamedType ''Boolean''),
          (''node'', NamedType ''Organization'')]\<rparr>),
      (''Organization'', \<lparr>tkind = ObjectKind, tfields =
         [(''id'', NonNullType (NamedType ''ID'')),
          (''name'', NamedType ''String''),
          (''tenantIds'', ListType (NamedType ''String''))]\<rparr>),
      (''ID'', \<lparr>tkind = ScalarKind, tfields = []\<rparr>),
      (''String'', \<lparr>tkind = ScalarKind, tfields = []\<rparr>),
      (''Int'', \<lparr>tkind = ScalarKind, tfields = []\<rparr>),
      (''Boolean'', \<lparr>tkind = ScalarKind, tfields = []\<rparr>),
      (''Status'', \<lparr>tkind = EnumKind, tfields = []\<rparr>)]"

definition exDirectives :: "(string \<times> directive_node list) list" where
  "exDirectives =
     [(''BaseAgreement.counterparties'',
        [\<lparr>dname = ''relationship'',
          darguments = [(''type'', EnumValue ''HAS_PARTNER''), (''direction'', StringValue ''OUT'')]\<rparr>])]"

definition exEnv :: "(string \<times> jsval) list \<Rightarrow> bool \<Rightarrow> env" where
  "exEnv vars tenant =
     \<lparr>schemaTypes = map_of exTypes,
      variables = (\<lambda>n. case map_of vars n of None \<Rightarrow> JUndefined | Some v \<Rightarrow> v),
      typeFieldsToDirectivesMap = map_of exDirectives,
      tenantBased = tenant,
      formatDate = (\<lambda>y m d. Inl RangeError)\<rparr>"

definition scalarField :: "string \<Rightarrow> selection" where
  "scalarField n = SelField (FieldNode n None [] None)"

definition exQuery :: "argument_node list \<Rightarrow> resolve_info" where
  "exQuery args =
     \<lparr>fieldName = ''baseAgreements'', fragments = Map.empty,
      operation =
        [SelField (FieldNode ''baseAgreements'' None args
           (Some [scalarField ''id'', scalarField ''name'',
                  SelField (FieldNode ''counterpartiesConnection'' None []
                    (Some [SelField (FieldNode ''edges'' None []
                       (Some [scalarField ''role'', scalarField ''isApprovalRequired'',
                              SelField (FieldNode ''node'' None []
                                (Some [scalarField ''id'', scalarField ''name'']))]))]))]))]\<rparr>"

definition exWhere2 :: value_node where
  "exWhere2 = ObjectValue [(''status'', EnumValue ''RUNNING_TEST''),
     (''counterpartiesConnection'', ObjectValue
        [(''edge'', ObjectValue [(''role'', EnumValue ''BUYER_TEST'')]),
         (''node'', ObjectValue [(''name'', StringValue ''Lads'')])])]"

definition exWhere1 :: value_node where
  "exWhere1 = ObjectValue [(''status'', EnumValue ''RUNNING_TEST''),
     (''counterpartiesConnection'', ObjectValue
        [(''edge'', ObjectValue [(''role'', EnumValue ''BUYER_TEST''),
            (''role_IN'', ListValue [EnumValue ''BUYER_TEST'', EnumValue ''BUYER_FEST''])])])]"

definition exWhere6 :: value_node where
  "exWhere6 = ObjectValue [(''status'', StringValue ''RUNNING_TEST''),
     (''AND'', ObjectValue
        [(''version_GTE'', IntValue ''0''), (''version_LTE'', IntValue ''10''),
         (''version_IN'', ListValue [IntValue ''1'', IntValue ''2'', IntValue ''3'']),
         (''OR'', ListValue [ObjectValue [(''version'', IntValue ''1'')],
                             ObjectValue [(''version'', IntValue ''2'')]])])]"

section \<open>Properties of the compiler and example inputs\<close>

subsection \<open>Notions and inputs for the walk: the shape of the stacks\<close>

text \<open>
  The lengths of the three field stacks and the type stack itself: what the path
  invariant reads of a state.
\<close>

definition stackShape :: "cstate \<Rightarrow> nat \<times> nat \<times> nat \<times> string option list" where
  "stackShape s =
     (length (fieldPath s), length (fieldNodePath s), length (listComprehensionFlagPath s),
      typePath s)"

definition pushShape ::
  "string option \<Rightarrow> nat \<times> nat \<times> nat \<times> string option list \<Rightarrow> nat \<times> nat \<times> nat \<times> string option list" where
  "pushShape x sh = (case sh of (a, b, c, tp) \<Rightarrow> (a + 1, b + 1, c + 1, tp @ [x]))"

definition popShape ::
  "nat \<times> nat \<times> nat \<times> string option list \<Rightarrow> nat \<times> nat \<times> nat \<times> string option list" where
  "popShape sh = (case sh of (a, b, c, tp) \<Rightarrow> (a - 1, b - 1, c - 1, butlast tp))"

text \<open>
  The path invariant with \<open>d\<close> inline fragments open: the three field stacks have one
  length, the type stack has that length, one more for the root and one more for each
  open inline fragment, and its first entry is what \<open>schema.getType("Query")\<close> gave.
\<close>

definition queryType :: "env \<Rightarrow> string option" where
  "queryType e = (if schemaTypes e ''Query'' \<noteq> None then Some ''Query'' else None)"

definition shapeInvariant :: "env \<Rightarrow> nat \<Rightarrow> nat \<times> nat \<times> nat \<times> string option list \<Rightarrow> bool" where
  "shapeInvariant e d sh =
     (case sh of (a, b, c, tp) \<Rightarrow>
        b = a \<and> c = a \<and> length tp = a + 1 + d \<and> tp ! 0 = queryType e)"

definition pathInvariant :: "env \<Rightarrow> nat \<Rightarrow> cstate \<Rightarrow> bool" where
  "pathInvariant e d s =
     (length (fieldNodePath s) = length (fieldPath s) \<and>
      length (listComprehensionFlagPath s) = length (fieldPath s) \<and>
      length (typePath s) = length (fieldPath s) + 1 + d \<and>
      typePath s ! 0 = queryType e)"

fun traceInvariant :: "env \<Rightarrow> trace \<Rightarrow> bool" where
  "traceInvariant e [] = True"
| "traceInvariant e ((d, s) # tr) = (pathInvariant e d s \<and> traceInvariant e tr)"

text \<open>
  A walk is balanced from \<open>s\<close> when every state of its trace has the invariant and the
  state it ends in, if it ends in one, has the stacks of \<open>s\<close>.
\<close>

definition balanced :: "env \<Rightarrow> cstate \<Rightarrow> trace \<times> (error + cstate) \<Rightarrow> bool" where
  "balanced e s m =
     (traceInvariant e (fst m) \<and> (case snd m of Inl err \<Rightarrow> True | Inr s' \<Rightarrow> stackShape s' = stackShape s))"

subsection \<open>Notions and inputs for C1: the single-property predicate\<close>

text \<open>A leaf condition on \<open>Organization.name\<close> with the given operator and the value \<open>X\<close>.\<close>

definition exLeaf :: "string \<Rightarrow> condition" where
  "exLeaf op = Condition (Some ''Organization'') (Some ''counterparties'') (Some ''name'')
     (Some op) False False False (JStr ''X'') []"

subsection \<open>Notions and inputs for C10: compiling twice\<close>

text \<open>A state with two segments in the buffer and one pending token.\<close>

definition exPendingState :: cstate where
  "exPendingState =
     \<lparr>fieldPath = [], fieldNodePath = [], typePath = [Some ''Query''],
      listComprehensionFlagPath = [], level = - 1,
      buffer = [JStr ''MATCH'', JStr ''(n)''],
      tokenBuffer = [\<lparr>tlevel = 0, tvalue = [JStr ''RETURN'', JStr ''n'']\<rparr>]\<rparr>"

subsection \<open>Notions and inputs for C7: the path invariant\<close>

text \<open>
  A query whose root field selects through an inline fragment: \<open>id\<close> and \<open>__typename\<close> of
  the agreements, inside \<open>... on BaseAgreement\<close>.
\<close>

definition exInlineQuery :: resolve_info where
  "exInlineQuery =
     \<lparr>fieldName = ''baseAgreements'', fragments = Map.empty,
      operation =
        [SelField (FieldNode ''baseAgreements'' None []
           (Some [SelInlineFragment (Some ''BaseAgreement'')
                    [SelField (FieldNode ''id'' None [] None),
                     SelField (FieldNode ''__typename'' None [] None)]]))]\<rparr>"

text \<open>
  Of a trace entry: the number of open inline fragments, the length of \<open>typePath\<close> and the
  length of \<open>fieldPath\<close>.
\<close>

definition pathLengths :: "nat \<times> cstate \<Rightarrow> nat \<times> nat \<times> nat" where
  "pathLengths p = (fst p, length (typePath (snd p)), length (fieldPath (snd p)))"

subsection \<open>Notions and inputs for C8: the output is a function of the inputs\<close>

text \<open>A query that asks for the \<open>name\<close> of the agreements under the alias \<open>title\<close>.\<close>

definition exAliasQuery :: resolve_info where
  "exAliasQuery =
     \<lparr>fieldName = ''baseAgreements'', fragments = Map.empty,
      operation =
        [SelField (FieldNode ''baseAgreements'' None []
           (Some [SelField (FieldNode ''name'' (Some ''title'') [] None)]))]\<rparr>"

subsection \<open>Notions and inputs for C9: the token of a scalar field\<close>

text \<open>
  The state in which the root field \<open>baseAgreements\<close> (no arguments) has been visited, and
  the field node \<open>title: name\<close>.
\<close>

definition exRootVisited :: cstate where
  "exRootVisited =
     \<lparr>fieldPath = [\<lparr>gfName = ''baseAgreements'', gfType = ListType (NamedType ''BaseAgreement'')\<rparr>],
      fieldNodePath = [FieldNode ''baseAgreements'' None []
                         (Some [SelField (FieldNode ''name'' (Some ''title'') [] None)])],
      typePath = [Some ''Query'', Some ''BaseAgreement''],
      listComprehensionFlagPath = [None],
      level = 0,
      buffer = [],
      tokenBuffer = [\<lparr>tlevel = 0, tvalue =
        [JStr ''MATCH'', JStr ''('', JStr ''baseAgreement0'', JStr '':'', JStr ''BaseAgreement'',
         JStr '')'', JStr ''RETURN'', JStr ''baseAgreement0'']\<rparr>]\<rparr>"

definition exAliasedName :: field_node where
  "exAliasedName = FieldNode ''name'' (Some ''title'') [] None"

text \<open>What a visit left in the last token of the buffer.\<close>

definition lastTokenValue :: "error + bool \<times> cstate \<Rightarrow> jsval list" where
  "lastTokenValue r =
     (case r of Inl err \<Rightarrow> [] | Inr p \<Rightarrow>
        (if tokenBuffer (snd p) = [] then [] else tvalue (last (tokenBuffer (snd p)))))"

subsection \<open>Notions and inputs for C2: the fast and the slow existential\<close>

text \<open>
  The qualification as the specification words it: every condition of the path has no
  operator, and every nested descendant of each has no operator and is not an OR
  condition with a child that has an operator.
\<close>

fun descendants :: "condition \<Rightarrow> condition list" where
  "descendants (Condition pt ppn p op orFlag groupFlag rel v ns) =
     concat (map (\<lambda>n. n # descendants n) ns)"

definition qualifiesAsSpecified :: "condition list \<Rightarrow> bool" where
  "qualifiesAsSpecified path =
     list_all (\<lambda>c. \<not> hasOperator c \<and>
                 list_all (\<lambda>d. \<not> hasOperator d \<and> \<not> (isOr d \<and> list_ex hasOperator (nested d)))
                   (descendants c)) path"

text \<open>
  The filter \<open>{ counterpartiesConnection: { node: { OR: [{ name: "Lads" }, { name: "Devs" }] } } }\<close>
  on the agreements, its condition tree, and the first of its two search paths.
\<close>

definition exWhereOrNode :: value_node where
  "exWhereOrNode = ObjectValue [(''counterpartiesConnection'', ObjectValue
     [(''node'', ObjectValue [(''OR'', ListValue
        [ObjectValue [(''name'', StringValue ''Lads'')],
         ObjectValue [(''name'', StringValue ''Devs'')]])])])]"

definition exNameLeaf :: "string \<Rightarrow> condition" where
  "exNameLeaf v = Condition (Some ''Organization'') (Some ''counterpartiesConnection'')
     (Some ''name'') (Some []) False False False (JStr (quoted v)) []"

definition exOrCondition :: condition where
  "exOrCondition = Condition (Some ''Organization'') (Some ''counterpartiesConnection'')
     None None True False False JUndefined
     [groupCondition [exNameLeaf ''Lads''], groupCondition [exNameLeaf ''Devs'']]"

definition exOrRelationship :: condition where
  "exOrRelationship = Condition (Some ''BaseAgreement'') (Some ''baseAgreements'')
     (Some ''counterpartiesConnection'') (Some []) False False False JUndefined [exOrCondition]"

definition exOrPath :: "condition list" where
  "exOrPath = [exOrRelationship, exOrCondition, groupCondition [exNameLeaf ''Lads'']]"

text \<open>
  The search path of \<open>{ counterpartiesConnection: { edge: { role: BUYER_TEST }, node: { name: "Lads" } } }\<close>:
  one relationship condition with two equality leaves.
\<close>

definition exFastPath :: "condition list" where
  "exFastPath =
     [Condition (Some ''BaseAgreement'') (Some ''baseAgreements'')
        (Some ''counterpartiesConnection'') (Some []) False False False JUndefined
        [Condition (Some ''BaseAgreementCounterpartiesRelationship'')
           (Some ''counterpartiesConnection'') (Some ''role'') (Some []) False False True
           (JStr (quoted ''BUYER_TEST'')) [],
         exNameLeaf ''Lads'']]"

subsection \<open>Notions and inputs for C5: the inline property pattern\<close>

text \<open>
  The filter \<open>{ OR: [{ version: 1 }, { version: 2 }] }\<close> on the agreements and its
  condition trees: one OR condition over two groups, each with one equality leaf.
\<close>

definition exWhereOr :: value_node where
  "exWhereOr = ObjectValue [(''OR'', ListValue
     [ObjectValue [(''version'', IntValue ''1'')], ObjectValue [(''version'', IntValue ''2'')]])]"

definition exVersionLeaf :: "string \<Rightarrow> condition" where
  "exVersionLeaf v = Condition (Some ''BaseAgreement'') (Some ''baseAgreements'')
     (Some ''version'') (Some []) False False False (JStr v) []"

definition exOrTrees :: "condition list" where
  "exOrTrees =
     [Condition (Some ''BaseAgreement'') (Some ''baseAgreements'') None None True False False
        JUndefined [groupCondition [exVersionLeaf ''1''], groupCondition [exVersionLeaf ''2'']]]"

text \<open>
  The condition trees of
  \<open>{ status: RUNNING_TEST, counterpartiesConnection: { edge: { role: BUYER_TEST }, node: { name: "Lads" } } }\<close>:
  an equality leaf and the relationship condition of the fast path above.
\<close>

definition exStatusLeaf :: condition where
  "exStatusLeaf = Condition (Some ''BaseAgreement'') (Some ''baseAgreements'') (Some ''status'')
     (Some []) False False False (JStr (quoted ''RUNNING_TEST'')) []"

subsection \<open>Notions and inputs for C6: the options clause\<close>

text \<open>
  Options supplied through a variable: a sort on \<open>name\<close>, and both \<open>offset\<close> and \<open>limit\<close> the
  number zero.
\<close>

definition exOptionsVariable :: jsval where
  "exOptionsVariable =
     JObj [(''sort'', JArr [JObj [(''name'', JStr ''DESC'')]]), (''offset'', JNum 0), (''limit'', JNum 0)]"

subsection \<open>Notions and inputs for C4: the two paths of the filter analyzer\<close>

text \<open>
  The literal that is structurally equal to a deserialized value: an object is an
  object literal with the same keys in the same order, an array a list literal, a
  number its decimal text in an \<open>IntValue\<close>, a string a \<open>StringValue\<close>, or an \<open>EnumValue\<close>
  where \<open>isEnum\<close> says that the string names an enum value.
\<close>

fun toAst :: "(string \<Rightarrow> bool) \<Rightarrow> jsval \<Rightarrow> value_node" where
  "toAst isEnum (JObj kvs) = ObjectValue (map (\<lambda>(k, v). (k, toAst isEnum v)) kvs)"
| "toAst isEnum (JArr xs) = ListValue (map (toAst isEnum) xs)"
| "toAst isEnum (JStr s) = (if isEnum s then EnumValue s else StringValue s)"
| "toAst isEnum (JNum n) = IntValue (show_int n)"
| "toAst isEnum (JBool b) = BooleanValue b"
| "toAst isEnum JNull = NullValue"
| "toAst isEnum JUndefined = NullValue"

text \<open>
  A value in its serialized form: a number as its decimal text, \<open>undefined\<close> as \<open>null\<close>.
  Two condition trees are the same up to the representation of their values when they
  are equal after this.
\<close>

fun normValue :: "jsval \<Rightarrow> jsval" where
  "normValue JUndefined = JNull"
| "normValue (JNum n) = JStr (show_int n)"
| "normValue (JArr xs) = JArr (map normValue xs)"
| "normValue v = v"

fun normCondition :: "condition \<Rightarrow> condition" where
  "normCondition (Condition pt ppn p op orFlag groupFlag rel v ns) =
     Condition pt ppn p op orFlag groupFlag rel (normValue v) (map normCondition ns)"

definition normTrees :: "error + condition list \<Rightarrow> error + condition list" where
  "normTrees r = (case r of Inl err \<Rightarrow> Inl err | Inr cs \<Rightarrow> Inr (map normCondition cs))"

text \<open>
  The filters on which the two paths agree, by the type of each field in the schema.
  What stands for a scalar field: a boolean, a number, a non-empty string, \<open>null\<close>, or a
  non-empty list of such values that does not start with \<open>null\<close>.
\<close>

fun scalarItem :: "jsval \<Rightarrow> bool" where
  "scalarItem (JStr s) = True"
| "scalarItem (JNum n) = True"
| "scalarItem (JBool b) = True"
| "scalarItem JNull = True"
| "scalarItem v = False"

fun plainScalar :: "jsval \<Rightarrow> bool" where
  "plainScalar (JBool b) = True"
| "plainScalar (JNum n) = True"
| "plainScalar (JStr s) = (s \<noteq> [])"
| "plainScalar JNull = True"
| "plainScalar (JArr items) = (items \<noteq> [] \<and> \<not> typeofObject (hd items) \<and> list_all scalarItem items)"
| "plainScalar v = False"

text \<open>
  A filter object, or a list of them: \<open>AND\<close> takes a list of filters, \<open>OR\<close> takes a list of
  filters and does not stand directly under a connection type, \<open>node\<close> and \<open>edge\<close> under a
  connection field take filters on the node and edge types, a field of an object type
  takes a filter on that type, and any other field takes a scalar as above. A field
  whose lookup throws is admitted: both paths throw on it.
\<close>

fun plainWhere :: "env \<Rightarrow> jsval \<Rightarrow> string \<Rightarrow> string option \<Rightarrow> bool"
and plainField :: "env \<Rightarrow> string \<Rightarrow> jsval \<Rightarrow> string \<Rightarrow> string option \<Rightarrow> bool"
where
  "plainWhere e (JArr items) pt ppn = list_all (\<lambda>item. plainWhere e item pt ppn) items"
| "plainWhere e (JObj kvs) pt ppn = list_all (\<lambda>(name, v). plainField e name v pt ppn) kvs"
| "plainWhere e (JStr s) pt ppn = (s = [])"
| "plainWhere e (JNum n) pt ppn = True"
| "plainWhere e (JBool b) pt ppn = True"
| "plainWhere e JNull pt ppn = False"
| "plainWhere e JUndefined pt ppn = False"
| "plainField e field v pt ppn =
     (if isConnectionContext ppn \<and> field = ''node''
        then (case getTargetIfConnectionType e pt of
                Inl err \<Rightarrow> True
              | Inr target \<Rightarrow> plainWhere e v target ppn)
      else if isConnectionContext ppn \<and> field = ''edge''
        then (case fieldTypeOf e pt ''edges'' of
                Inl err \<Rightarrow> True
              | Inr edges \<Rightarrow> plainWhere e v (unwrapType edges) ppn)
      else if field = ''OR''
        then \<not> ConnectionSuffixRegex_test pt \<and> isArray v \<and>
             list_all (\<lambda>source. plainWhere e source pt ppn) (arrItems v)
      else if field = ''AND''
        then isObjectArray v \<and> list_all (\<lambda>item. plainWhere e item pt ppn) (arrItems v)
      else
        \<not> isObjectArray v \<and>
        (case fieldTypeOf e pt (splitProperty field) of
           Inl err \<Rightarrow> True
         | Inr t \<Rightarrow>
             (case getTargetIfConnectionType e pt of
                Inl err \<Rightarrow> True
              | Inr target \<Rightarrow>
                  if isObjectType e (unwrapType t)
                  then plainWhere e v (unwrapType t) (Some (splitProperty field))
                  else plainScalar v)))"

text \<open>
  Two filters on the agreements, as deserialized values: \<open>{ AND: { version_GTE: 0 } }\<close>,
  with \<open>AND\<close> in its object form, and \<open>{ name: "" }\<close>. No string is an enum name here.
\<close>

definition noEnum :: "string \<Rightarrow> bool" where
  "noEnum s = False"

definition exWhereAndObject :: jsval where
  "exWhereAndObject = JObj [(''AND'', JObj [(''version_GTE'', JNum 0)])]"

definition exWhereEmptyName :: jsval where
  "exWhereEmptyName = JObj [(''name'', JStr [])]"

text \<open>
  The filter of the tests, extended: an enum, a list of numbers, a connection with
  filters on its edge and its node, and an OR of two filters.
\<close>

definition exIsEnum :: "string \<Rightarrow> bool" where
  "exIsEnum s = (s = ''RUNNING_TEST'' \<or> s = ''BUYER_TEST'')"

definition exWhereObject :: jsval where
  "exWhereObject =
     JObj [(''status'', JStr ''RUNNING_TEST''),
           (''version_IN'', JArr [JNum 1, JNum 2]),
           (''counterpartiesConnection'',
              JObj [(''edge'', JObj [(''role'', JStr ''BUYER_TEST'')]),
                    (''node'', JObj [(''name'', JStr ''Lads'')])]),
           (''OR'', JArr [JObj [(''version'', JNum 1)], JObj [(''version'', JNum 2)]])]"

definition treeCount :: "error + condition list \<Rightarrow> nat" where
  "treeCount r = (case r of Inl err \<Rightarrow> 0 | Inr cs \<Rightarrow> length cs)"

section \<open>Facts about the walk\<close>

lemma ebind_eq_Inr: "(ebind m f = Inr y) = (\<exists>x. m = Inr x \<and> f x = Inr y)"
  by (cases m) simp_all

lemma ebind_eq_Inl: "(ebind m f = Inl err) = (m = Inl err \<or> (\<exists>x. m = Inr x \<and> f x = Inl err))"
  by (cases m) simp_all

lemma tbind_alt:
  "tbind m f =
     (case snd m of
        Inl err \<Rightarrow> (fst m, Inl err)
      | Inr s \<Rightarrow> (fst m @ fst (f s), snd (f s)))"
  by (cases m; cases "snd m") (auto simp: tbind_def split: prod.splits)

lemma tbind_Inr [simp]: "tbind (tr, Inr s) f = (tr @ fst (f s), snd (f s))"
  by (simp add: tbind_alt)

lemma tbind_Inl [simp]: "tbind (tr, Inl err) f = (tr, Inl err)"
  by (simp add: tbind_alt)

lemma tbind_cong:
  "m' = m \<Longrightarrow> (\<And>s. snd m = Inr s \<Longrightarrow> f' s = f s) \<Longrightarrow> tbind m' f' = tbind m f"
  by (cases "snd m") (simp_all add: tbind_alt)

lemma tbind_not_fst: "snd (tbind m f) \<noteq> Inl err \<Longrightarrow> snd m \<noteq> Inl err"
  by (cases "snd m") (auto simp: tbind_alt)

lemma tbind_not_snd: "snd (tbind m f) \<noteq> Inl err \<Longrightarrow> snd m = Inr s \<Longrightarrow> snd (f s) \<noteq> Inl err"
  by (simp add: tbind_alt)

text \<open>More fuel does not change a walk that did not run out of it.\<close>

lemma walkSelections_fuel:
  assumes "\<forall>d node s. snd (walk n e info d node s) \<noteq> Inl OutOfFuel \<longrightarrow>
             walk (Suc n) e info d node s = walk n e info d node s"
  shows "snd (walkSelections n e info d sels s) \<noteq> Inl OutOfFuel \<Longrightarrow>
           walkSelections (Suc n) e info d sels s = walkSelections n e info d sels s"
proof (induction sels arbitrary: s)
  case Nil
  then show ?case by simp
next
  case (Cons a sels)
  from Cons.prems have p: "snd (tbind (walk n e info d a s) (walkSelections n e info d sels))
      \<noteq> Inl OutOfFuel"
    by simp
  have w: "walk (Suc n) e info d a s = walk n e info d a s"
    using assms tbind_not_fst [OF p] by blast
  have "tbind (walk (Suc n) e info d a s) (walkSelections (Suc n) e info d sels) =
        tbind (walk n e info d a s) (walkSelections n e info d sels)"
    by (rule tbind_cong [OF w]) (rule Cons.IH, rule tbind_not_snd [OF p])
  then show ?case by simp
qed

lemma walkSelectionSet_fuel:
  assumes "\<forall>d node s. snd (walk n e info d node s) \<noteq> Inl OutOfFuel \<longrightarrow>
             walk (Suc n) e info d node s = walk n e info d node s"
  shows "snd (walkSelectionSet n e info d pk sels s) \<noteq> Inl OutOfFuel \<Longrightarrow>
           walkSelectionSet (Suc n) e info d pk sels s = walkSelectionSet n e info d pk sels s"
proof (cases sels)
  case None
  then show ?thesis by simp
next
  case (Some xs)
  assume a: "snd (walkSelectionSet n e info d pk sels s) \<noteq> Inl OutOfFuel"
  define ys where "ys = filter (\<lambda>selection. pk \<noteq> OperationDefinition \<or>
                 (case selection of SelField f \<Rightarrow> fnName f = fieldName info | _ \<Rightarrow> False)) xs"
  from a Some have "snd (walkSelections n e info d ys s) \<noteq> Inl OutOfFuel"
    unfolding ys_def by (auto dest: tbind_not_fst)
  with assms have "walkSelections (Suc n) e info d ys s = walkSelections n e info d ys s"
    by (rule walkSelections_fuel)
  then show ?thesis using Some unfolding ys_def by simp
qed

lemma walk_fuel_Suc:
  "snd (walk n e info d node s) \<noteq> Inl OutOfFuel \<Longrightarrow>
     walk (Suc n) e info d node s = walk n e info d node s"
proof (induction n arbitrary: d node s)
  case 0
  then show ?case by simp
next
  case (Suc n)
  have "\<forall>d node s. snd (walk n e info d node s) \<noteq> Inl OutOfFuel \<longrightarrow>
          walk (Suc n) e info d node s = walk n e info d node s"
    using Suc.IH by blast
  note IH = walkSelectionSet_fuel [OF this]
  show ?case
  proof (cases node)
    case (SelField f)
    show ?thesis
    proof (cases "visitField e f s")
      case (Inl err)
      then show ?thesis using SelField by simp
    next
      case (Inr p)
      obtain h s1 where p: "p = (h, s1)" by (cases p)
      show ?thesis
      proof (cases h)
        case True
        then show ?thesis using SelField Inr p by simp
      next
        case False
        from Suc.prems SelField Inr p False
        have "snd (tbind (walkSelectionSet n e info d Field (fnSelectionSet f) s1)
                (\<lambda>s2. observe d (visitEndField e f s2))) \<noteq> Inl OutOfFuel"
          by simp
        from IH [OF tbind_not_fst [OF this]] show ?thesis using SelField Inr p False by simp
      qed
    qed
  next
    case (SelInlineFragment tc sels)
    show ?thesis
    proof (cases "visitInlineFragment e tc s")
      case (Inl err)
      then show ?thesis using SelInlineFragment by (simp add: observe_def)
    next
      case (Inr s1)
      from Suc.prems SelInlineFragment Inr
      have "snd (tbind (walkSelectionSet n e info (d + 1) InlineFragment (Some sels) s1)
              (\<lambda>s2. observe d (Inr (visitEndInlineFragment s2)))) \<noteq> Inl OutOfFuel"
        by (simp add: observe_def del: walkSelectionSet.simps)
      from IH [OF tbind_not_fst [OF this]] show ?thesis using SelInlineFragment Inr
        by (simp add: observe_def del: walkSelectionSet.simps)
    qed
  next
    case (SelFragmentSpread name)
    show ?thesis
    proof (cases "fragments info name")
      case None
      then show ?thesis using SelFragmentSpread by simp
    next
      case (Some sels)
      from Suc.prems SelFragmentSpread Some
      have "snd (walkSelectionSet n e info d FragmentDefinition (Some sels) s) \<noteq> Inl OutOfFuel"
        by (simp del: walkSelectionSet.simps)
      from IH [OF this] show ?thesis using SelFragmentSpread Some
        by (simp del: walkSelectionSet.simps)
    qed
  qed
qed

lemma walkSelectionSet_fuel_le:
  "snd (walkSelectionSet n e info d pk sels s) \<noteq> Inl OutOfFuel \<Longrightarrow> n \<le> m \<Longrightarrow>
     walkSelectionSet m e info d pk sels s = walkSelectionSet n e info d pk sels s"
proof (induction m)
  case 0
  then show ?case by simp
next
  case (Suc m)
  show ?case
  proof (cases "n = Suc m")
    case True
    then show ?thesis by simp
  next
    case False
    with Suc.prems have le: "n \<le> m" by simp
    from Suc.IH [OF Suc.prems(1) le] Suc.prems(1)
    have "snd (walkSelectionSet m e info d pk sels s) \<noteq> Inl OutOfFuel" by simp
    moreover have "\<forall>d node s. snd (walk m e info d node s) \<noteq> Inl OutOfFuel \<longrightarrow>
          walk (Suc m) e info d node s = walk m e info d node s"
      using walk_fuel_Suc by blast
    ultimately have "walkSelectionSet (Suc m) e info d pk sels s = walkSelectionSet m e info d pk sels s"
      using walkSelectionSet_fuel by blast
    with Suc.IH [OF Suc.prems(1) le] show ?thesis by simp
  qed
qed

lemma fromEnd_snoc_Suc: "fromEnd (xs @ [x]) (Suc (Suc k)) = fromEnd xs (Suc k)"
  by (auto simp: fromEnd_def nth_append)

lemma fromEnd_snoc_1: "fromEnd (xs @ [x]) (Suc 0) = Some x"
  by (simp add: fromEnd_def)

lemma popShape_pushShape [simp]: "popShape (pushShape x sh) = sh"
  by (cases sh) (simp add: popShape_def pushShape_def)

lemma pushToLastToken_shape:
  "pushToLastToken toks s = Inr s' \<Longrightarrow> stackShape s' = stackShape s \<and> level s' = level s"
  by (auto simp: pushToLastToken_def stackShape_def split: if_splits)

lemma setLastFlag_shape [simp]: "stackShape (setLastFlag fl s) = stackShape s"
  by (simp add: setLastFlag_def stackShape_def)

lemma enterField_shape [simp]: "stackShape (enterField s) = stackShape s"
  by (simp add: enterField_def stackShape_def)

lemma pushField_shape [simp]:
  "stackShape (pushField f t s) = pushShape (Some (unwrapType t)) (stackShape s)"
  by (simp add: pushField_def stackShape_def pushShape_def)

lemma emitField_shape:
  "emitField e f t c r s = Inr (h, s') \<Longrightarrow> stackShape s' = stackShape s"
  unfolding emitField_def Let_def
  by (auto simp: ebind_eq_Inr split: if_splits option.splits dest!: pushToLastToken_shape)

lemma visitField_shape:
  assumes "visitField e f s = Inr (h, s')"
  shows "if fnName f = ''__typename'' then stackShape s' = stackShape s
         else \<exists>x. stackShape s' = pushShape x (stackShape s)"
  using assms unfolding visitField_def Let_def tryGetSystemFieldValue_def
  by (auto simp: ebind_eq_Inr split: if_splits dest!: pushToLastToken_shape emitField_shape)

lemma visitEndField_shape:
  assumes "visitEndField e f s = Inr s'"
  shows "stackShape s' = (if fnName f = ''__typename'' then stackShape s else popShape (stackShape s))"
  using assms unfolding visitEndField_def Let_def tryGetSystemFieldValue_def
  by (auto simp: ebind_eq_Inr stackShape_def popShape_def
      split: if_splits option.splits dest!: pushToLastToken_shape)

lemma visitEndSelectionSet_shape [simp]:
  "stackShape (visitEndSelectionSet pk s) = stackShape s"
  by (simp add: visitEndSelectionSet_def stackShape_def Let_def partitionBy_def)

lemma visitInlineFragment_shape:
  "visitInlineFragment e tc s = Inr s' \<Longrightarrow>
     \<exists>x. stackShape s' = (case stackShape s of (a, b, c, tp) \<Rightarrow> (a, b, c, tp @ [x]))"
  by (auto simp: visitInlineFragment_def stackShape_def split: option.splits)

lemma visitEndInlineFragment_shape:
  "stackShape (visitEndInlineFragment s) = (case stackShape s of (a, b, c, tp) \<Rightarrow> (a, b, c, butlast tp))"
  by (simp add: visitEndInlineFragment_def stackShape_def)

lemma pathInvariant_shape: "pathInvariant e d s = shapeInvariant e d (stackShape s)"
  by (simp add: pathInvariant_def shapeInvariant_def stackShape_def)

lemma traceInvariant_append [simp]:
  "traceInvariant e (xs @ ys) = (traceInvariant e xs \<and> traceInvariant e ys)"
  by (induction xs) auto

lemma shapeInvariant_push: "shapeInvariant e d sh \<Longrightarrow> shapeInvariant e d (pushShape x sh)"
  by (cases sh) (auto simp: shapeInvariant_def pushShape_def nth_append)

lemma shapeInvariant_open:
  "shapeInvariant e d (a, b, c, tp) \<Longrightarrow> shapeInvariant e (Suc d) (a, b, c, tp @ [x])"
  by (auto simp: shapeInvariant_def nth_append)

lemma balanced_tbind:
  assumes "balanced e s m"
    and "\<And>s1. snd m = Inr s1 \<Longrightarrow> stackShape s1 = stackShape s \<Longrightarrow> balanced e s1 (f s1)"
  shows "balanced e s (tbind m f)"
  using assms by (cases "snd m") (auto simp: balanced_def tbind_alt split: sum.splits)

lemma balanced_shape: "stackShape s1 = stackShape s \<Longrightarrow> balanced e s1 m \<Longrightarrow> balanced e s m"
  by (simp add: balanced_def split: sum.splits)

lemma walkSelections_balanced:
  assumes "\<forall>d node s. pathInvariant e d s \<longrightarrow> balanced e s (walk n e info d node s)"
  shows "pathInvariant e d s \<Longrightarrow> balanced e s (walkSelections n e info d sels s)"
proof (induction sels arbitrary: s)
  case Nil
  then show ?case by (simp add: balanced_def)
next
  case (Cons a sels)
  have "balanced e s (tbind (walk n e info d a s) (walkSelections n e info d sels))"
  proof (rule balanced_tbind)
    show "balanced e s (walk n e info d a s)" using assms Cons.prems by blast
  next
    fix s1 assume "stackShape s1 = stackShape s"
    with Cons.prems have "pathInvariant e d s1" by (simp add: pathInvariant_shape)
    then show "balanced e s1 (walkSelections n e info d sels s1)" by (rule Cons.IH)
  qed
  then show ?case by simp
qed

lemma walkSelectionSet_balanced:
  assumes "\<forall>d node s. pathInvariant e d s \<longrightarrow> balanced e s (walk n e info d node s)"
    and "pathInvariant e d s"
  shows "balanced e s (walkSelectionSet n e info d pk sels s)"
proof (cases sels)
  case None
  then show ?thesis by (simp add: balanced_def)
next
  case (Some xs)
  define ys where "ys = filter (\<lambda>selection. pk \<noteq> OperationDefinition \<or>
                 (case selection of SelField f \<Rightarrow> fnName f = fieldName info | _ \<Rightarrow> False)) xs"
  have "balanced e s (tbind (walkSelections n e info d ys s)
          (\<lambda>s1. observe d (Inr (visitEndSelectionSet pk s1))))"
  proof (rule balanced_tbind)
    show "balanced e s (walkSelections n e info d ys s)"
      using assms by (rule walkSelections_balanced)
  next
    fix s1 assume "stackShape s1 = stackShape s"
    with assms(2) have "pathInvariant e d (visitEndSelectionSet pk s1)"
      by (simp add: pathInvariant_shape)
    then show "balanced e s1 (observe d (Inr (visitEndSelectionSet pk s1)))"
      by (simp add: balanced_def observe_def)
  qed
  then show ?thesis using Some by (simp add: ys_def)
qed

lemma walk_balanced:
  "pathInvariant e d s \<Longrightarrow> balanced e s (walk n e info d node s)"
proof (induction n arbitrary: d node s)
  case 0
  then show ?case by (simp add: balanced_def)
next
  case (Suc n)
  have IHw: "\<forall>d node s. pathInvariant e d s \<longrightarrow> balanced e s (walk n e info d node s)"
    using Suc.IH by blast
  note sets = walkSelectionSet_balanced [OF IHw]
  from Suc.prems have inv: "shapeInvariant e d (stackShape s)" by (simp add: pathInvariant_shape)
  show ?case
  proof (cases node)
    case (SelField f)
    show ?thesis
    proof (cases "visitField e f s")
      case (Inl err)
      then show ?thesis using SelField by (simp add: balanced_def)
    next
      case (Inr p)
      obtain h s1 where p: "p = (h, s1)" by (cases p)
      from visitField_shape [of e f s h s1] Inr p
      have sh1: "if fnName f = ''__typename'' then stackShape s1 = stackShape s
                 else \<exists>x. stackShape s1 = pushShape x (stackShape s)" by simp
      with inv have inv1: "pathInvariant e d s1"
        by (auto simp: pathInvariant_shape shapeInvariant_push split: if_splits)
      have kids: "balanced e s1 (if \<not> h then walkSelectionSet n e info d Field (fnSelectionSet f) s1
                 else ([], Inr s1))"
        using sets [OF inv1] by (simp add: balanced_def)
      define K where "K = (if \<not> h then walkSelectionSet n e info d Field (fnSelectionSet f) s1
                 else ([], Inr s1))"
      have w: "walk (Suc n) e info d node s =
                 ([(d, s1)] @ fst (tbind K (\<lambda>s2. observe d (visitEndField e f s2))),
                  snd (tbind K (\<lambda>s2. observe d (visitEndField e f s2))))"
        using SelField Inr p by (simp add: K_def)
      show ?thesis
      proof (cases "snd K")
        case (Inl err)
        then show ?thesis using kids inv1 unfolding w K_def [symmetric]
          by (simp add: balanced_def tbind_alt)
      next
        case k: (Inr s2)
        with kids have sh2: "stackShape s2 = stackShape s1"
          unfolding K_def [symmetric] by (simp add: balanced_def)
        show ?thesis
        proof (cases "visitEndField e f s2")
          case (Inl err)
          then show ?thesis using kids inv1 k unfolding w K_def [symmetric]
            by (simp add: balanced_def tbind_alt observe_def)
        next
          case e3: (Inr s3)
          from visitEndField_shape [OF e3] sh2 sh1
          have "stackShape s3 = stackShape s" by (auto split: if_splits)
          with inv have "pathInvariant e d s3" by (simp add: pathInvariant_shape)
          with \<open>stackShape s3 = stackShape s\<close> show ?thesis
            using kids inv1 k e3 unfolding w K_def [symmetric]
            by (simp add: balanced_def tbind_alt observe_def)
        qed
      qed
    qed
  next
    case (SelInlineFragment tc sels)
    show ?thesis
    proof (cases "visitInlineFragment e tc s")
      case (Inl err)
      then show ?thesis using SelInlineFragment by (simp add: observe_def balanced_def)
    next
      case (Inr s1)
      obtain a b c tp where sh: "stackShape s = (a, b, c, tp)" by (cases "stackShape s")
      from visitInlineFragment_shape [OF Inr] sh obtain x where
        sh1: "stackShape s1 = (a, b, c, tp @ [x])" by auto
      from inv sh sh1 have inv1: "pathInvariant e (d + 1) s1"
        by (simp add: pathInvariant_shape shapeInvariant_open)
      have kids: "balanced e s1 (walkSelectionSet n e info (d + 1) InlineFragment (Some sels) s1)"
        by (rule sets [OF inv1])
      have fin: "stackShape s2 = stackShape s1 \<Longrightarrow> stackShape (visitEndInlineFragment s2) = stackShape s" for s2
        using sh sh1 by (simp add: visitEndInlineFragment_shape)
      have "traceInvariant e (fst (tbind (walkSelectionSet n e info (d + 1) InlineFragment (Some sels) s1)
              (\<lambda>s2. observe d (Inr (visitEndInlineFragment s2)))))
            \<and> (case snd (tbind (walkSelectionSet n e info (d + 1) InlineFragment (Some sels) s1)
              (\<lambda>s2. observe d (Inr (visitEndInlineFragment s2)))) of Inl err \<Rightarrow> True
               | Inr s3 \<Rightarrow> stackShape s3 = stackShape s)"
        using kids fin inv
        by (cases "snd (walkSelectionSet n e info (d + 1) InlineFragment (Some sels) s1)")
           (auto simp: balanced_def tbind_alt observe_def pathInvariant_shape
             simp del: walkSelectionSet.simps)
      then show ?thesis using SelInlineFragment Inr inv1
        by (simp add: balanced_def observe_def del: walkSelectionSet.simps)
    qed
  next
    case (SelFragmentSpread name)
    show ?thesis
    proof (cases "fragments info name")
      case None
      then show ?thesis using SelFragmentSpread by (simp add: balanced_def)
    next
      case (Some sels)
      from sets [OF Suc.prems, of FragmentDefinition "Some sels"] show ?thesis
        using SelFragmentSpread Some by (simp del: walkSelectionSet.simps)
    qed
  qed
qed

lemma visitOperation_invariant: "pathInvariant e 0 (visitOperation e)"
  by (simp add: pathInvariant_def visitOperation_def queryType_def)

lemma walkOperation_traceInvariant: "traceInvariant e (fst (walkOperation n e info s))"
proof -
  have "\<forall>d node s. pathInvariant e d s \<longrightarrow> balanced e s (walk n e info d node s)"
    using walk_balanced by blast
  from walkSelectionSet_balanced [OF this visitOperation_invariant]
  show ?thesis
    by (simp add: walkOperation_def observe_def balanced_def visitOperation_invariant
        del: walkSelectionSet.simps)
qed

section \<open>The claims\<close>

subsection \<open>C1: the single-property predicate\<close>



subsection \<open>C10: compiling twice\<close>

text \<open>
  C10. On a compiler on which \<open>compile()\<close> has been called, a second call with no visitor
  callback in between returns the same string and leaves the buffer as the first call
  left it: the first call moves every pending token into the buffer and empties the
  token buffer, so the second finds nothing to move.
\<close>

theorem C10_compile_idempotent:
  "compile (snd (compile s)) = compile s"
  by (simp add: compile_def Let_def)

theorem C10_witness:
  "fst (compile exPendingState) = ''MATCH (n) RETURN n'' \<and>
   compile (snd (compile exPendingState)) =
     (''MATCH (n) RETURN n'',
      exPendingState\<lparr>buffer := [JStr ''MATCH'', JStr ''(n)'', JStr ''RETURN'', JStr ''n''],
                      tokenBuffer := []\<rparr>)"
  using C10_compile_idempotent [of exPendingState]
  by (simp add: compile_def exPendingState_def join_def)

subsection \<open>C7: the path invariant\<close>

text \<open>
  The claim as stated fails inside an inline fragment: \<open>visitInlineFragment\<close> pushes the
  fragment's type on \<open>typePath\<close> and nothing on the other stacks. The third state of the
  walk below, the one after \<open>visitInlineFragment\<close>, has three types and one field.
\<close>

theorem C7_counterexample:
  "map pathLengths (fst (walkOperation 6 (exEnv [] False) exInlineQuery (visitOperation (exEnv [] False))))
     = [(0, 1, 0), (0, 2, 1), (1, 3, 1), (1, 4, 2), (1, 3, 1), (1, 3, 1), (1, 3, 1), (1, 3, 1),
        (0, 2, 1), (0, 2, 1), (0, 1, 0), (0, 1, 0)]
   \<and> \<not> pathInvariant (exEnv [] False) 0
        (snd (fst (walkOperation 6 (exEnv [] False) exInlineQuery (visitOperation (exEnv [] False))) ! 2))"
  by code_simp

text \<open>
  C7, amended. At every point during the walk of an operation (after each visitor
  callback), with \<open>d\<close> the number of inline fragments open at that point:
  \<open>|fieldPath| = |fieldNodePath| = |listComprehensionFlagPath|\<close> and
  \<open>|typePath| = |fieldPath| + 1 + d\<close>, with the root Query type at index 0 of \<open>typePath\<close>.
  Outside inline fragments (\<open>d = 0\<close>) this is the invariant as the specification states
  it, and it holds across system fields such as \<open>__typename\<close>, which push nothing.
\<close>

theorem C7_path_invariant:
  assumes "(d, t) \<in> set (fst (walkOperation n e info s))"
  shows "length (fieldNodePath t) = length (fieldPath t) \<and>
         length (listComprehensionFlagPath t) = length (fieldPath t) \<and>
         length (typePath t) = length (fieldPath t) + 1 + d \<and>
         typePath t ! 0 = queryType e"
proof -
  have "traceInvariant e tr \<Longrightarrow> (d, t) \<in> set tr \<Longrightarrow> pathInvariant e d t" for tr
    by (induction tr) auto
  from this [OF walkOperation_traceInvariant assms] show ?thesis
    by (simp add: pathInvariant_def)
qed

theorem C7_witness:
  "length (typePath (snd (fst (walkOperation 6 (exEnv [] False) exInlineQuery
       (visitOperation (exEnv [] False))) ! 3))) = 4 \<and>
   length (fieldPath (snd (fst (walkOperation 6 (exEnv [] False) exInlineQuery
       (visitOperation (exEnv [] False))) ! 3))) = 2 \<and>
   fst (fst (walkOperation 6 (exEnv [] False) exInlineQuery
       (visitOperation (exEnv [] False))) ! 3) = 1"
proof -
  let ?tr = "fst (walkOperation 6 (exEnv [] False) exInlineQuery (visitOperation (exEnv [] False)))"
  have l: "map pathLengths ?tr ! 3 = (1, 4, 2)" "length (map pathLengths ?tr) = 12"
    by code_simp+
  then have "3 < length ?tr" by simp
  then have "(fst (?tr ! 3), snd (?tr ! 3)) \<in> set ?tr" by simp
  from C7_path_invariant [OF this] l show ?thesis
    by (simp add: pathLengths_def)
qed

subsection \<open>C8: the output is a function of the inputs\<close>



subsection \<open>C9: the token of a scalar field\<close>

lemma exRootVisited_reached:
  "visitField (exEnv [] False)
     (FieldNode ''baseAgreements'' None [] (Some [SelField exAliasedName]))
     (visitOperation (exEnv [] False)) = Inr (False, exRootVisited)"
  by code_simp

text \<open>
  The claim as stated fails: for \<open>title: name\<close> the token is \<open>.name\<close>, not
  \<open>title : .name\<close>.
\<close>

theorem C9_counterexample:
  "lastTokenValue (visitField (exEnv [] False) exAliasedName exRootVisited) = [JStr ''.name'']
   \<and> lastTokenValue (visitField (exEnv [] False) exAliasedName exRootVisited)
       \<noteq> [JStr ''title'', JStr '':'', JStr ''.name'']"
  by code_simp

text \<open>
  C9, amended. For every field at level above 0 whose unwrapped target type is a scalar
  or an enum and which carries no cypher directive, the emitted token is \<open>.fieldName\<close>
  alone, the map-property shorthand; the alias is not emitted. (The visit also pushes
  the field on the four stacks and reports the field as not handled.)
\<close>

theorem C9_scalar_field_token:
  assumes "fnName f \<noteq> ''__typename''"
    and "lastType s = Some parent"
    and "fieldTypeOf e parent (fnName f) = Inr t"
    and "isScalarType e (unwrapType t) \<or> isEnumType e (unwrapType t)"
    and "cypherDirectiveOf e (parent @ ''.'' @ fnName f) = None"
    and "0 \<le> level s"
    and "fnName f = ''edges'' \<longrightarrow> typeFromEnd s 2 \<noteq> None"
  shows "visitField e f s =
     Inr (False,
          s\<lparr>level := level s + 1,
            tokenBuffer := tokenBuffer s @
              [\<lparr>tlevel = level s + 1, tvalue = [JStr (''.'' @ fnName f)]\<rparr>],
            fieldNodePath := fieldNodePath s @ [f],
            fieldPath := fieldPath s @ [\<lparr>gfName = fnName f, gfType = t\<rparr>],
            listComprehensionFlagPath := listComprehensionFlagPath s @ [None],
            typePath := typePath s @ [Some (unwrapType t)]\<rparr>)"
proof -
  have two: "(2::nat) = Suc (Suc 0)" "(3::nat) = Suc (Suc (Suc 0))" by simp_all
  have "\<exists>rel. getRelationshipDirective e (pushField f t (enterField s)) = Inr rel"
    using assms(2,7)
    by (auto simp: getRelationshipDirective_def typeFromEnd_def lastType_def typeName_def two
        fromEnd_snoc_Suc Let_def pushField_def enterField_def split: option.splits)
  then obtain rel where
    rel: "getRelationshipDirective e (pushField f t (enterField s)) = Inr rel" ..
  have cy: "getCypherDirective e (pushField f t (enterField s)) = Inr None"
    using assms(2,5)
    by (auto simp: getCypherDirective_def typeFromEnd_def lastType_def typeName_def two
        fromEnd_snoc_Suc pushField_def enterField_def split: option.splits)
  have lt: "lastType (enterField s) = Some parent"
    using assms(2) by (simp add: lastType_def typeFromEnd_def enterField_def)
  have em: "emitField e f t None rel (pushField f t (enterField s)) =
      Inr (False,
          s\<lparr>level := level s + 1,
            tokenBuffer := tokenBuffer s @
              [\<lparr>tlevel = level s + 1, tvalue = [JStr (''.'' @ fnName f)]\<rparr>],
            fieldNodePath := fieldNodePath s @ [f],
            fieldPath := fieldPath s @ [\<lparr>gfName = fnName f, gfType = t\<rparr>],
            listComprehensionFlagPath := listComprehensionFlagPath s @ [None],
            typePath := typePath s @ [Some (unwrapType t)]\<rparr>)"
    using assms(4,6)
    by (simp add: emitField_def Let_def pushField_def enterField_def pushToLastToken_def)
  show ?thesis
    using assms(1,3) rel cy lt em
    by (simp add: visitField_def Let_def tryGetSystemFieldValue_def typeName_def)
qed

theorem C9_witness:
  "visitField (exEnv [] False) exAliasedName exRootVisited =
     Inr (False,
          exRootVisited\<lparr>level := 1,
            tokenBuffer := tokenBuffer exRootVisited @ [\<lparr>tlevel = 1, tvalue = [JStr ''.name'']\<rparr>],
            fieldNodePath := fieldNodePath exRootVisited @ [exAliasedName],
            fieldPath := fieldPath exRootVisited @ [\<lparr>gfName = ''name'', gfType = NamedType ''String''\<rparr>],
            listComprehensionFlagPath := [None, None],
            typePath := [Some ''Query'', Some ''BaseAgreement'', Some ''String'']\<rparr>)"
proof -
  have a: "fnName exAliasedName \<noteq> ''__typename''"
    "lastType exRootVisited = Some ''BaseAgreement''"
    "fieldTypeOf (exEnv [] False) ''BaseAgreement'' (fnName exAliasedName) = Inr (NamedType ''String'')"
    "isScalarType (exEnv [] False) (unwrapType (NamedType ''String'')) \<or>
     isEnumType (exEnv [] False) (unwrapType (NamedType ''String''))"
    "cypherDirectiveOf (exEnv [] False) (''BaseAgreement'' @ ''.'' @ fnName exAliasedName) = None"
    "0 \<le> level exRootVisited"
    "fnName exAliasedName = ''edges'' \<longrightarrow> typeFromEnd exRootVisited 2 \<noteq> None"
    by code_simp+
  from C9_scalar_field_token [OF a] show ?thesis
    by (simp add: exRootVisited_def exAliasedName_def)
qed

subsection \<open>C2: the fast and the slow existential\<close>

lemma exOrPath_reached:
  "createConditionTrees (exEnv [] False) exWhereOrNode ''BaseAgreement'' (Some ''baseAgreements'')
     = Inr [exOrRelationship]
   \<and> getDeepFirstSearchPaths exOrRelationship [] =
       [exOrPath, [exOrRelationship, exOrCondition, groupCondition [exNameLeaf ''Devs'']]]"
  by code_simp




subsection \<open>C5: the inline property pattern\<close>

lemma eflatMap_Nil [simp]: "eflatMap f [] = Inr []"
  by (simp add: eflatMap_def)

lemma eflatMap_Cons:
  "eflatMap f (x # xs) = ebind (f x) (\<lambda>y. ebind (eflatMap f xs) (\<lambda>ys. Inr (y @ ys)))"
  by (cases "f x"; cases "emap f xs") (simp_all add: eflatMap_def)

lemma eflatMap_filter_skip:
  "(\<And>x. x \<in> set xs \<Longrightarrow> P x \<Longrightarrow> f x = Inr []) \<Longrightarrow>
     eflatMap f (filter (\<lambda>x. \<not> P x) xs) = eflatMap f xs"
proof (induction xs)
  case Nil
  then show ?case by simp
next
  case (Cons a xs)
  then have IH: "eflatMap f (filter (\<lambda>x. \<not> P x) xs) = eflatMap f xs" by simp
  show ?case
  proof (cases "P a")
    case True
    with Cons.prems have "f a = Inr []" by simp
    with True IH show ?thesis
      by (cases "eflatMap f xs") (simp_all add: eflatMap_Cons)
  next
    case False
    with IH show ?thesis by (simp add: eflatMap_Cons)
  qed
qed

lemma leaf_not_relationship: "nested c = [] \<Longrightarrow> \<not> isRelationshipCondition c"
  by (cases c) simp

lemma leaf_no_predicate:
  "nested c = [] \<Longrightarrow> \<not> hasOperator c \<Longrightarrow>
     createPropertyConditionExpressions c lvl None False = Inr []"
  by (cases c) (simp add: insertBetweenGroups_def)




subsection \<open>C6: the options clause\<close>

lemma emap_Inr: "emap (\<lambda>x. Inr (g x)) xs = Inr (map g xs)"
  by (induction xs) simp_all

lemma insertBetweenArrayItems_strings:
  "insertBetweenArrayItems (map (\<lambda>x. JStr (g x)) xs) ins = insertBetween ins (map (\<lambda>x. JStr (g x)) xs)"
proof -
  have "filter (\<lambda>item. \<not> isEmptyValue item \<and> (\<not> isArray item \<or> item \<noteq> JArr []))
          (map (\<lambda>x. JStr (g x)) xs) = map (\<lambda>x. JStr (g x)) xs"
    by (induction xs) simp_all
  then show ?thesis by (simp add: insertBetweenArrayItems_def)
qed




subsection \<open>C3: the tenant predicate\<close>

lemma find_where_replaced:
  "find (\<lambda>arg. fst arg = k) args = Some w \<Longrightarrow>
     find (\<lambda>arg. fst arg = k) (map (\<lambda>arg. if fst arg = k then (k, x) else arg) args) = Some (k, x)"
  by (induction args) (auto split: if_splits)

lemma find_where_appended:
  "find (\<lambda>arg. fst arg = k) args = None \<Longrightarrow>
     find (\<lambda>arg. fst arg = k) (args @ [(k, x)]) = Some (k, x)"
  by (induction args) (auto split: if_splits)

lemma find_Some_ex: "find P xs = Some x \<Longrightarrow> list_ex P xs"
  by (induction xs) (auto split: if_splits)

lemma find_None_ex: "find P xs = None \<Longrightarrow> \<not> list_ex P xs"
  by (induction xs) (auto split: if_splits)

lemma createConditionTrees_AND_list:
  "createConditionTrees e (ObjectValue [(''AND'', ListValue [a, b])]) pt ppn =
     ebind (createConditionTrees e a pt ppn) (\<lambda>xs.
     ebind (createConditionTrees e b pt ppn) (\<lambda>ys. Inr (xs @ ys)))"
  by (cases "createConditionTrees e a pt ppn"; cases "createConditionTrees e b pt ppn")
     (simp_all add: eflatMap_Cons)



subsection \<open>C4: the two paths of the filter analyzer\<close>

lemma normTrees_simps [simp]:
  "normTrees (Inl err) = Inl err"
  "normTrees (Inr cs) = Inr (map normCondition cs)"
  by (simp_all add: normTrees_def)

lemma normTrees_eq_cases:
  assumes "normTrees a = normTrees b"
  obtains err where "a = Inl err" "b = Inl err"
  | xs ys where "a = Inr xs" "b = Inr ys" "map normCondition xs = map normCondition ys"
  using assms by (cases a; cases b) auto

lemma normTrees_bind_append:
  assumes "normTrees a = normTrees b" and "normTrees c = normTrees d"
  shows "normTrees (ebind a (\<lambda>y. ebind c (\<lambda>ys. Inr (y @ ys)))) =
         normTrees (ebind b (\<lambda>y. ebind d (\<lambda>ys. Inr (y @ ys))))"
  using assms(1)
proof (cases rule: normTrees_eq_cases)
  case 1
  then show ?thesis by simp
next
  case (2 xs ys)
  from assms(2) show ?thesis
  proof (cases rule: normTrees_eq_cases)
    case 1
    then show ?thesis using 2 by simp
  next
    case (2 us vs)
    then show ?thesis using \<open>a = Inr xs\<close> \<open>b = Inr ys\<close> \<open>map normCondition xs = map normCondition ys\<close>
      by simp
  qed
qed

lemma normTrees_eflatMap:
  "(\<And>x. x \<in> set xs \<Longrightarrow> normTrees (f x) = normTrees (g x)) \<Longrightarrow>
     normTrees (eflatMap f xs) = normTrees (eflatMap g xs)"
proof (induction xs)
  case Nil
  then show ?case by simp
next
  case (Cons a xs)
  then have "normTrees (f a) = normTrees (g a)"
    and "normTrees (eflatMap f xs) = normTrees (eflatMap g xs)" by simp_all
  then show ?case unfolding eflatMap_Cons by (rule normTrees_bind_append)
qed

lemma eflatMap_map: "eflatMap f (map h xs) = eflatMap (\<lambda>x. f (h x)) xs"
  by (induction xs) (simp_all add: eflatMap_Cons)

lemma emap_as_eflatMap: "emap f xs = eflatMap (\<lambda>x. ebind (f x) (\<lambda>c. Inr [c])) xs"
proof (induction xs)
  case Nil
  then show ?case by simp
next
  case (Cons a xs)
  then show ?case
    by (cases "f a"; cases "emap f xs") (simp_all add: eflatMap_Cons)
qed

lemma emap_map: "emap f (map h xs) = emap (\<lambda>x. f (h x)) xs"
  by (induction xs) simp_all

lemma normTrees_groups:
  assumes "\<And>x. x \<in> set xs \<Longrightarrow> normTrees (f x) = normTrees (g x)"
  shows "normTrees (emap (\<lambda>x. ebind (f x) (\<lambda>ns. Inr (groupCondition ns))) xs) =
         normTrees (emap (\<lambda>x. ebind (g x) (\<lambda>ns. Inr (groupCondition ns))) xs)"
  unfolding emap_as_eflatMap
proof (rule normTrees_eflatMap)
  fix x assume "x \<in> set xs"
  then have "normTrees (f x) = normTrees (g x)" by (rule assms)
  then show "normTrees (ebind (ebind (f x) (\<lambda>ns. Inr (groupCondition ns))) (\<lambda>c. Inr [c])) =
             normTrees (ebind (ebind (g x) (\<lambda>ns. Inr (groupCondition ns))) (\<lambda>c. Inr [c]))"
    by (cases rule: normTrees_eq_cases) (simp_all add: groupCondition_def)
qed

lemma normTrees_wrap:
  assumes "normTrees m = normTrees m'" and "normValue v = normValue v'"
  shows "normTrees (ebind m (\<lambda>ns. Inr [Condition a b c d orFlag groupFlag rel v ns])) =
         normTrees (ebind m' (\<lambda>ns. Inr [Condition a b c d orFlag groupFlag rel v' ns]))"
  using assms(1) by (cases rule: normTrees_eq_cases) (simp_all add: assms(2))

lemma map_insertBetween: "map h (insertBetween ins xs) = insertBetween (h ins) (map h xs)"
  by (induction ins xs rule: insertBetween.induct) simp_all

lemma norm_insertBetweenArrayItems:
  assumes "\<And>x. x \<in> set xs \<Longrightarrow>
             normValue (f x) = normValue (g x) \<and>
             (\<not> isEmptyValue (f x) \<and> (\<not> isArray (f x) \<or> f x \<noteq> JArr [])) =
             (\<not> isEmptyValue (g x) \<and> (\<not> isArray (g x) \<or> g x \<noteq> JArr []))"
  shows "map normValue (insertBetweenArrayItems (map f xs) ins) =
         map normValue (insertBetweenArrayItems (map g xs) ins)"
proof -
  let ?keep = "\<lambda>item. \<not> isEmptyValue item \<and> (\<not> isArray item \<or> item \<noteq> JArr [])"
  from assms have "map normValue (filter ?keep (map f xs)) = map normValue (filter ?keep (map g xs))"
  proof (induction xs)
    case Nil
    then show ?case by simp
  next
    case (Cons a xs)
    then have t: "map normValue (filter ?keep (map f xs)) = map normValue (filter ?keep (map g xs))"
      by simp
    from Cons.prems [of a] have h: "normValue (f a) = normValue (g a)" "?keep (f a) = ?keep (g a)"
      by simp_all
    show ?case
    proof (cases "?keep (f a)")
      case True
      with h(2) have "?keep (g a)" by blast
      with True t h(1) show ?thesis by simp
    next
      case False
      with h(2) have "\<not> ?keep (g a)" by blast
      with False t show ?thesis by simp
    qed
  qed
  then show ?thesis
    by (simp add: insertBetweenArrayItems_def map_insertBetween)
qed

lemma scalarItem_value:
  assumes "scalarItem item" and "\<not> isObjectType e ft"
  shows "normValue (readValue e ft (toAst q item)) =
           normValue (case item of JStr s \<Rightarrow> JStr (quoted s) | _ \<Rightarrow> item) \<and>
         (\<not> isEmptyValue (readValue e ft (toAst q item)) \<and>
            (\<not> isArray (readValue e ft (toAst q item)) \<or> readValue e ft (toAst q item) \<noteq> JArr [])) =
         (\<not> isEmptyValue (case item of JStr s \<Rightarrow> JStr (quoted s) | _ \<Rightarrow> item) \<and>
            (\<not> isArray (case item of JStr s \<Rightarrow> JStr (quoted s) | _ \<Rightarrow> item) \<or>
             (case item of JStr s \<Rightarrow> JStr (quoted s) | _ \<Rightarrow> item) \<noteq> JArr []))"
  using assms by (cases item) simp_all

lemma plainScalar_value:
  assumes "plainScalar v" and "\<not> isObjectType e ft"
  shows "\<exists>mv. mapConditionValue e v = Inr mv \<and>
              normValue (readValue e ft (toAst q v)) = normValue mv"
proof (cases v)
  case (JArr items)
  with assms(1) have items: "list_all scalarItem items" by simp
  have "map normValue (insertBetweenArrayItems (map (\<lambda>x. readValue e ft (toAst q x)) items) (JStr '','')) =
        map normValue (insertBetweenArrayItems
          (map (\<lambda>item. case item of JStr s \<Rightarrow> JStr (quoted s) | _ \<Rightarrow> item) items) (JStr '',''))"
    by (rule norm_insertBetweenArrayItems)
       (use items assms(2) in \<open>auto simp: list_all_iff dest!: scalarItem_value\<close>)
  then show ?thesis
    using JArr assms(2) by (simp add: mapConditionValue_def comp_def)
qed (use assms in \<open>simp_all add: mapConditionValue_def\<close>)

lemma not_connection_target:
  "\<not> ConnectionSuffixRegex_test pt \<Longrightarrow> getTargetIfConnectionType e pt = Inr pt"
  by (simp add: getTargetIfConnectionType_def)

lemma toAst_array: "isArray v \<Longrightarrow> toAst q v = ListValue (map (toAst q) (arrItems v))"
  by (cases v) simp_all

lemma toAst_not_list: "\<not> isArray v \<Longrightarrow> listValues (toAst q v) = None"
  by (cases v) simp_all

declare plainField.simps [simp del]
declare createConditionsByObjectFieldNode.simps [simp del]
declare createConditionTreesByObjectField.simps [simp del]

lemmas where_field_simps = plainField.simps createConditionsByObjectFieldNode.simps
  createConditionTreesByObjectField.simps

lemma paths_agree:
  "plainWhere e obj pt ppn \<Longrightarrow>
     normTrees (createConditionTrees e (toAst q obj) pt ppn) =
     normTrees (createConditionTreesByObject e obj pt ppn)"
  "plainField e k v pt ppn \<Longrightarrow>
     normTrees (createConditionsByObjectFieldNode e k (toAst q v) pt ppn) =
     normTrees (createConditionTreesByObjectField e k v pt ppn)"
proof (induction e obj pt ppn and e k v pt ppn rule: plainWhere_plainField.induct)
  case (1 e items pt ppn)
  have "normTrees (eflatMap (\<lambda>x. createConditionTrees e (toAst q x) pt ppn) items) =
        normTrees (eflatMap (\<lambda>item. createConditionTreesByObject e item pt ppn) items)"
    by (rule normTrees_eflatMap) (use 1 in \<open>auto simp: list_all_iff\<close>)
  then show ?case by (simp add: eflatMap_map)
next
  case (2 e kvs pt ppn)
  have "normTrees (eflatMap (\<lambda>x. createConditionsByObjectFieldNode e (fst x) (toAst q (snd x)) pt ppn) kvs) =
        normTrees (eflatMap (\<lambda>x. createConditionTreesByObjectField e (fst x) (snd x) pt ppn) kvs)"
  proof (rule normTrees_eflatMap)
    fix x assume x: "x \<in> set kvs"
    obtain name v where nv: "x = (name, v)" by (cases x)
    from 2(2) x nv have "plainField e name v pt ppn" by (auto simp: list_all_iff)
    from 2(1) [OF x nv [symmetric] this] nv
    show "normTrees (createConditionsByObjectFieldNode e (fst x) (toAst q (snd x)) pt ppn) =
          normTrees (createConditionTreesByObjectField e (fst x) (snd x) pt ppn)"
      by simp
  qed
  then show ?case
    by (simp add: eflatMap_map split_def)
next
  case (8 e field v pt ppn)
  show ?case
  proof (cases "isConnectionContext ppn \<and> field = ''node''")
    case True
    show ?thesis
    proof (cases "getTargetIfConnectionType e pt")
      case (Inl err)
      with True show ?thesis by (simp add: where_field_simps)
    next
      case (Inr target)
      from "8.IH"(1) [OF True Inr] "8.prems" True Inr show ?thesis by (simp add: where_field_simps)
    qed
  next
    case notNode: False
    show ?thesis
    proof (cases "isConnectionContext ppn \<and> field = ''edge''")
      case True
      show ?thesis
      proof (cases "fieldTypeOf e pt ''edges''")
        case (Inl err)
        with True notNode show ?thesis by (simp add: where_field_simps)
      next
        case (Inr edges)
        from "8.IH"(2) [OF notNode True Inr] "8.prems" True notNode Inr show ?thesis by (simp add: where_field_simps)
      qed
    next
      case notEdge: False
      show ?thesis
      proof (cases "field = ''OR''")
        case True
        from "8.prems" notNode notEdge True
        have nc: "\<not> ConnectionSuffixRegex_test pt" and arr: "isArray v"
          and all: "list_all (\<lambda>source. plainWhere e source pt ppn) (arrItems v)"
          by (simp_all add: plainField.simps)
        have g: "normTrees (emap (\<lambda>x. ebind (createConditionTrees e (toAst q x) pt ppn)
                    (\<lambda>ns. Inr (groupCondition ns))) (arrItems v)) =
                 normTrees (emap (\<lambda>x. ebind (createConditionTreesByObject e x pt ppn)
                    (\<lambda>ns. Inr (groupCondition ns))) (arrItems v))"
        proof (rule normTrees_groups)
          fix x assume x: "x \<in> set (arrItems v)"
          with all have "plainWhere e x pt ppn" by (simp add: list_all_iff)
          from "8.IH"(3) [OF notNode notEdge True x this]
          show "normTrees (createConditionTrees e (toAst q x) pt ppn) =
                normTrees (createConditionTreesByObject e x pt ppn)" .
        qed
        from normTrees_wrap [OF g, of JUndefined JUndefined "Some pt" ppn None None True False False]
        show ?thesis
          using True arr nc
          by (simp add: where_field_simps notNode notEdge toAst_array emap_map not_connection_target)
      next
        case notOr: False
        show ?thesis
        proof (cases "field = ''AND''")
          case True
          from "8.prems" notNode notEdge notOr True
          have oa: "isObjectArray v"
            and all: "list_all (\<lambda>item. plainWhere e item pt ppn) (arrItems v)"
            by (simp_all add: plainField.simps)
          then have arr: "isArray v" by (simp add: isObjectArray_def)
          have "normTrees (eflatMap (\<lambda>x. createConditionTrees e (toAst q x) pt ppn) (arrItems v)) =
                normTrees (eflatMap (\<lambda>item. createConditionTreesByObject e item pt ppn) (arrItems v))"
          proof (rule normTrees_eflatMap)
            fix x assume x: "x \<in> set (arrItems v)"
            with all have "plainWhere e x pt ppn" by (simp add: list_all_iff)
            from "8.IH"(4) [OF notNode notEdge notOr True x this]
            show "normTrees (createConditionTrees e (toAst q x) pt ppn) =
                  normTrees (createConditionTreesByObject e x pt ppn)" .
          qed
          then show ?thesis
            using True oa arr by (simp add: where_field_simps notNode notEdge toAst_array eflatMap_map)
        next
          case notAnd: False
          from "8.prems" notNode notEdge notOr notAnd have noa: "\<not> isObjectArray v" by (simp add: plainField.simps)
          show ?thesis
          proof (cases "fieldTypeOf e pt (splitProperty field)")
            case (Inl err)
            then show ?thesis using notOr notAnd noa by (simp add: where_field_simps notNode notEdge)
          next
            case t: (Inr t)
            show ?thesis
            proof (cases "getTargetIfConnectionType e pt")
              case (Inl err)
              then show ?thesis using notOr notAnd noa t by (simp add: where_field_simps notNode notEdge)
            next
              case target: (Inr target)
              show ?thesis
              proof (cases "isObjectType e (unwrapType t)")
                case True
                from "8.prems" notNode notEdge notOr notAnd t target True
                have "plainWhere e v (unwrapType t) (Some (splitProperty field))" by (simp add: plainField.simps)
                from "8.IH"(5) [OF notNode notEdge notOr notAnd t target True this]
                have "normTrees (createConditionTrees e (toAst q v) (unwrapType t) (Some (splitProperty field))) =
                      normTrees (createConditionTreesByObject e v (unwrapType t) (Some (splitProperty field)))" .
                from normTrees_wrap [OF this, of JUndefined JNull]
                show ?thesis
                  using notOr notAnd noa t target True by (simp add: where_field_simps notNode notEdge)
              next
                case False
                from "8.prems" notNode notEdge notOr notAnd t target False
                have "plainScalar v" by (simp add: plainField.simps)
                from plainScalar_value [OF this False, of q] obtain mv where
                  mv: "mapConditionValue e v = Inr mv"
                  "normValue (readValue e (unwrapType t) (toAst q v)) = normValue mv" by blast
                then show ?thesis
                  using notOr notAnd noa t target False by (simp add: where_field_simps notNode notEdge)
              qed
            qed
          qed
        qed
      qed
    qed
  qed
qed simp_all




end
